theory Spec2Isabelle
  imports Complex_Main "HOL-Library.Log_Nat" "HOL-Library.Sublist"
begin

section \<open>wsjtx-adif: conversion of a wsjt-x fox log to ADIF\<close>

text \<open>
  A shallow embedding of \<^verbatim>\<open>wsjtx-adif.py\<close>.  A Python \<^verbatim>\<open>str\<close> is a \<^typ>\<open>string\<close>; one
  \<^typ>\<open>char\<close> stands for one character with a code point below 256, so \<^const>\<open>length\<close> is
  Python's \<^verbatim>\<open>len\<close>, and for the ASCII text of a log it is the number of bytes as well.
  The input file is the list of its lines, as \<^verbatim>\<open>for l in inf\<close> yields them.  Exceptions
  are values of \<open>error\<close>; the two output channels are explicit.
\<close>

subsection \<open>Character classes of \<^verbatim>\<open>re\<close> and \<^verbatim>\<open>str\<close>\<close>

definition code :: "char \<Rightarrow> int" where
  "code c = of_char c"

definition is_digit :: "char \<Rightarrow> bool" where
  \<comment> \<open>\<^verbatim>\<open>\d\<close> and \<^verbatim>\<open>[0-9]\<close>: below 256 the only decimal digits are the ASCII ones\<close>
  "is_digit c = (48 \<le> code c \<and> code c \<le> 57)"

definition is_upper :: "char \<Rightarrow> bool" where
  \<comment> \<open>\<^verbatim>\<open>[A-Z]\<close>\<close>
  "is_upper c = (65 \<le> code c \<and> code c \<le> 90)"

definition is_space :: "char \<Rightarrow> bool" where
  \<comment> \<open>\<^verbatim>\<open>\s\<close> and \<^verbatim>\<open>str.isspace\<close>: TAB..CR, FS..US, space, NEL, NBSP\<close>
  "is_space c = (let n = code c in
     (9 \<le> n \<and> n \<le> 13) \<or> (28 \<le> n \<and> n \<le> 32) \<or> n = 133 \<or> n = 160)"

definition is_word :: "char \<Rightarrow> bool" where
  \<comment> \<open>\<^verbatim>\<open>\w\<close>: alphanumeric characters and the underscore\<close>
  "is_word c = (let n = code c in
     (48 \<le> n \<and> n \<le> 57) \<or> (65 \<le> n \<and> n \<le> 90) \<or> n = 95 \<or> (97 \<le> n \<and> n \<le> 122) \<or>
     n = 170 \<or> n = 178 \<or> n = 179 \<or> n = 181 \<or> n = 185 \<or> n = 186 \<or>
     (188 \<le> n \<and> n \<le> 190) \<or> (192 \<le> n \<and> n \<le> 214) \<or> (216 \<le> n \<and> n \<le> 246) \<or>
     (248 \<le> n \<and> n \<le> 255))"

definition newline :: char where
  "newline = CHR 0x0A"

subsection \<open>Numbers to text and back\<close>

definition digit_chr :: "int \<Rightarrow> char" where
  "digit_chr n = char_of (48 + n)"

definition digit_val :: "char \<Rightarrow> int" where
  "digit_val c = code c - 48"

function dec_str :: "int \<Rightarrow> string" where
  \<comment> \<open>the decimal digits of \<open>0 \<le> n\<close>\<close>
  "dec_str n = (if n < 10 then [digit_chr n] else dec_str (n div 10) @ [digit_chr (n mod 10)])"
  by pat_completeness auto
termination
  by (relation "measure nat") auto

declare dec_str.simps [simp del]

definition fmt_d :: "int \<Rightarrow> string" where
  \<comment> \<open>\<^verbatim>\<open>'%d' % v\<close>\<close>
  "fmt_d v = (if v < 0 then CHR ''-'' # dec_str (- v) else dec_str v)"

definition fmt_02d :: "int \<Rightarrow> string" where
  \<comment> \<open>\<^verbatim>\<open>'%02d' % v\<close>: zero-padded to a width of two, the sign counted in the width\<close>
  "fmt_02d v = (if 0 \<le> v \<and> v < 10 then CHR ''0'' # dec_str v else fmt_d v)"

definition pad2 :: "int \<Rightarrow> string" where
  \<comment> \<open>\<^verbatim>\<open>%m %d %H %M %S\<close> of \<^verbatim>\<open>strftime\<close>\<close>
  "pad2 n = (if n < 10 then CHR ''0'' # dec_str n else dec_str n)"

fun digits_val :: "int \<Rightarrow> string \<Rightarrow> int" where
  \<comment> \<open>the value of a digit string, continuing from the value read so far\<close>
  "digits_val acc [] = acc"
| "digits_val acc (c # cs) = digits_val (10 * acc + digit_val c) cs"

fun int_digits :: "int \<Rightarrow> string \<Rightarrow> int option" where
  \<comment> \<open>the rest of an \<^verbatim>\<open>int()\<close> literal after a digit: digits, single underscores between them\<close>
  "int_digits acc [] = Some acc"
| "int_digits acc [c] = (if is_digit c then Some (10 * acc + digit_val c) else None)"
| "int_digits acc (c # d # cs) =
     (if is_digit c then int_digits (10 * acc + digit_val c) (d # cs)
      else if c = CHR ''_'' \<and> is_digit d then int_digits (10 * acc + digit_val d) cs
      else None)"

definition int_unsigned :: "string \<Rightarrow> int option" where
  "int_unsigned s = (case s of [] \<Rightarrow> None
     | c # cs \<Rightarrow> if is_digit c then int_digits (digit_val c) cs else None)"

definition max_str_digits :: int where
  \<comment> \<open>\<^verbatim>\<open>sys.get_int_max_str_digits()\<close>, the default of Python 3.11\<close>
  "max_str_digits = 4300"

definition py_int :: "string \<Rightarrow> int option" where
  \<comment> \<open>\<^verbatim>\<open>int(d)\<close> on a string without white space (a token of \<^verbatim>\<open>split()\<close>):
      an optional sign, then the digits, no more of them than the limit for the conversion
      of strings; \<open>None\<close> is \<^verbatim>\<open>ValueError\<close>\<close>
  "py_int s = (case s of
       [] \<Rightarrow> None
     | c # cs \<Rightarrow>
         if max_str_digits < int (length (filter is_digit s)) then None
         else if c = CHR ''-'' then map_option uminus (int_unsigned cs)
         else if c = CHR ''+'' then int_unsigned cs
         else int_unsigned s)"

subsection \<open>Binary64 arithmetic on non-negative values\<close>

text \<open>
  \<^verbatim>\<open>float(s)\<close>, the product with \<^verbatim>\<open>1000.0\<close> and \<^verbatim>\<open>'%.3f'\<close> are correctly rounded
  (to nearest, ties to even).  A finite double is the rational number it denotes.
\<close>

datatype pyfloat = Fin rat | Inf

definition round_half_even :: "rat \<Rightarrow> int" where
  "round_half_even x = (let f = \<lfloor>x\<rfloor>; d = x - of_int f in
     if d < 1 / 2 then f else if 1 / 2 < d then f + 1 else if even f then f else f + 1)"

definition pow2 :: "int \<Rightarrow> rat" where
  "pow2 k = (if 0 \<le> k then 2 ^ nat k else 1 / 2 ^ nat (- k))"

definition ilog2 :: "rat \<Rightarrow> int" where
  \<comment> \<open>\<open>\<lfloor>log\<^sub>2 x\<rfloor>\<close> for \<open>0 < x\<close>, from the bit lengths of numerator and denominator\<close>
  "ilog2 x = (let (a, b) = quotient_of x; k = bitlen a - bitlen b in
     if pow2 k \<le> x then k else k - 1)"

definition round64 :: "rat \<Rightarrow> pyfloat" where
  \<comment> \<open>the double nearest to \<open>0 \<le> x\<close>: 53 significant bits, exponents from -1022 (below that
      the subnormal spacing); a result that reaches \<open>2 ^ 1024\<close> is infinity\<close>
  "round64 x = (if x \<le> 0 then Fin 0 else
     let e = max (ilog2 x) (- 1022); ulp = pow2 (e - 52); m = round_half_even (x / ulp)
     in if 1024 \<le> e \<or> (e = 1023 \<and> m = 9007199254740992) then Inf else Fin (of_int m * ulp))"

definition is_float_literal :: "string \<Rightarrow> bool" where
  \<comment> \<open>a full match of \<^verbatim>\<open>\d+\.\d+\<close>, the shape of the third group of \<^verbatim>\<open>re_line\<close>\<close>
  "is_float_literal s = (let i = takeWhile is_digit s; r = dropWhile is_digit s in
     i \<noteq> [] \<and> r \<noteq> [] \<and> hd r = CHR ''.'' \<and> tl r \<noteq> [] \<and> list_all is_digit (tl r))"

definition py_float :: "string \<Rightarrow> pyfloat option" where
  \<comment> \<open>\<^verbatim>\<open>float(s)\<close> on the unsigned decimal literals that \<^verbatim>\<open>re_line\<close> yields (the only
      arguments \<^verbatim>\<open>convert\<close> has for it); \<open>None\<close> is \<^verbatim>\<open>ValueError\<close>\<close>
  "py_float s = (if is_float_literal s then
       let i = takeWhile is_digit s; f = tl (dropWhile is_digit s)
       in Some (round64 (of_int (digits_val 0 (i @ f)) / 10 ^ length f))
     else None)"

definition float_mul :: "pyfloat \<Rightarrow> rat \<Rightarrow> pyfloat" where
  \<comment> \<open>\<^verbatim>\<open>x * c\<close> for a non-negative \<open>x\<close> and a positive double constant \<open>c\<close>\<close>
  "float_mul x c = (case x of Inf \<Rightarrow> Inf | Fin r \<Rightarrow> round64 (r * c))"

definition pad3 :: "int \<Rightarrow> string" where
  "pad3 n = (if n < 10 then ''00'' @ dec_str n else if n < 100 then CHR ''0'' # dec_str n
     else dec_str n)"

definition fmt_3f :: "pyfloat \<Rightarrow> string" where
  \<comment> \<open>\<^verbatim>\<open>'%.3f' % x\<close> for a non-negative \<open>x\<close>\<close>
  "fmt_3f x = (case x of Inf \<Rightarrow> ''inf''
     | Fin r \<Rightarrow> let n = round_half_even (r * 1000)
               in dec_str (n div 1000) @ ''.'' @ pad3 (n mod 1000))"

subsection \<open>The band table\<close>

definition BAND_FREQ :: "(string \<times> rat \<times> rat) list" where
  \<comment> \<open>adif band identifiers and rough band edges, in the order of the dictionary literal\<close>
  "BAND_FREQ =
    [(''160m'', 1800, 2000),
     (''80m'', 3500, 3800),
     (''60m'', 5300, 5400),
     (''40m'', 7000, 7200),
     (''30m'', 10100, 10150),
     (''20m'', 14000, 14250),
     (''17m'', 18068, 18168),
     (''15m'', 21000, 21450),
     (''12m'', 24890, 24990),
     (''10m'', 28000, 29690),
     (''6m'', 50000, 52000),
     (''2m'', 140000, 150000),
     (''70cm'', 430000, 440000)]"

fun band_loop :: "(string \<times> rat \<times> rat) list \<Rightarrow> rat \<Rightarrow> string option" where
  \<comment> \<open>\<^verbatim>\<open>for band in BAND_FREQ: if ...: return band\<close>, then \<^verbatim>\<open>return None\<close>\<close>
  "band_loop [] freq_khz = None"
| "band_loop ((band, lo, hi) # rest) freq_khz =
     (if lo \<le> freq_khz \<and> hi \<ge> freq_khz then Some band else band_loop rest freq_khz)"

definition freq_to_band :: "rat \<Rightarrow> string option" where
  "freq_to_band freq_khz = band_loop BAND_FREQ freq_khz"

definition freq_to_band_float :: "pyfloat \<Rightarrow> string option" where
  \<comment> \<open>the call on a double: no upper band edge is \<open>\<ge> inf\<close>\<close>
  "freq_to_band_float x = (case x of Inf \<Rightarrow> None | Fin r \<Rightarrow> freq_to_band r)"

subsection \<open>The ADIF encoder\<close>

record datetime =
  year :: int
  month :: int
  day :: int
  hour :: int
  minute :: int
  second :: int

definition adif_date :: "datetime \<Rightarrow> string" where
  \<comment> \<open>\<^verbatim>\<open>dt.strftime("%Y%m%d")\<close>; the C library prints a year below 1000 without padding\<close>
  "adif_date dt = dec_str (year dt) @ pad2 (month dt) @ pad2 (day dt)"

definition adif_time :: "datetime \<Rightarrow> string" where
  \<comment> \<open>\<^verbatim>\<open>dt.strftime("%H%M%S")\<close>\<close>
  "adif_time dt = pad2 (hour dt) @ pad2 (minute dt) @ pad2 (second dt)"

definition adif_db :: "string \<Rightarrow> string option" where
  \<comment> \<open>signal report in dB, ADIF formatted; \<open>None\<close> is the \<^verbatim>\<open>ValueError\<close> of \<^verbatim>\<open>int(d)\<close>\<close>
  "adif_db d = (case py_int d of
       None \<Rightarrow> None
     | Some v \<Rightarrow> Some (if v \<ge> 0 then CHR ''+'' # fmt_02d v else CHR ''-'' # fmt_02d (v * - 1)))"

definition adif_field :: "string \<Rightarrow> string option \<Rightarrow> string" where
  \<comment> \<open>ADIF field key-length-value encoding\<close>
  "adif_field k v = (case v of
       None \<Rightarrow> []
     | Some s \<Rightarrow> ''<'' @ k @ '':'' @ fmt_d (int (length s)) @ ''>'' @ s)"

definition utf8_length :: "string \<Rightarrow> nat" where
  \<comment> \<open>the number of bytes of a text in UTF-8, the encoding of a file opened in text mode:
      one byte for a code point below 128, two bytes for a code point from 128 to 255\<close>
  "utf8_length s = length s + length (filter (\<lambda>c. 128 \<le> code c) s)"

fun join :: "string \<Rightarrow> string list \<Rightarrow> string" where
  \<comment> \<open>\<^verbatim>\<open>sep.join(xs)\<close>\<close>
  "join sep [] = []"
| "join sep [x] = x"
| "join sep (x # y # ys) = x @ sep @ join sep (y # ys)"

type_synonym row = "(string \<times> string option) list"

definition adif_row :: "row \<Rightarrow> string" where
  \<comment> \<open>ADIF row encoding from a dictionary, the keys in insertion order\<close>
  "adif_row h = join '' '' (map (\<lambda>(k, v). adif_field k v) h) @ '' <eor>'' @ [newline]"

subsection \<open>Parsing a line\<close>

text \<open>
  \<^verbatim>\<open>re_line\<close> is matched from left to right.  Every repetition in it is followed by an
  atom that none of the repeated characters can match (a digit run by \<^verbatim>\<open>.\<close> or white
  space, white space by a digit or a word character, the tag's \<^verbatim>\<open>\w+\<close> by the colon), and
  the final \<^verbatim>\<open>.*\<close> matches any rest, so the greedy match is the only one and no
  backtracking changes the groups.
\<close>

definition match_n :: "(char \<Rightarrow> bool) \<Rightarrow> nat \<Rightarrow> string \<Rightarrow> (string \<times> string) option" where
  \<comment> \<open>\<^verbatim>\<open>X{n}\<close>: the matched text and the rest\<close>
  "match_n P n s = (if n \<le> length s \<and> list_all P (take n s) then Some (take n s, drop n s)
     else None)"

definition match_plus :: "(char \<Rightarrow> bool) \<Rightarrow> string \<Rightarrow> (string \<times> string) option" where
  \<comment> \<open>\<^verbatim>\<open>X+\<close>, greedy\<close>
  "match_plus P s = (if takeWhile P s = [] then None else Some (takeWhile P s, dropWhile P s))"

definition match_chr :: "char \<Rightarrow> string \<Rightarrow> string option" where
  "match_chr c s = (case s of [] \<Rightarrow> None | x # xs \<Rightarrow> if x = c then Some xs else None)"

definition match_date :: "string \<Rightarrow> (string \<times> string) option" where
  \<comment> \<open>\<^verbatim>\<open>\d{4}-\d{2}-\d{2}\<close>\<close>
  "match_date s =
     Option.bind (match_n is_digit 4 s) (\<lambda>(y, s1).
     Option.bind (match_chr CHR ''-'' s1) (\<lambda>s2.
     Option.bind (match_n is_digit 2 s2) (\<lambda>(m, s3).
     Option.bind (match_chr CHR ''-'' s3) (\<lambda>s4.
     Option.bind (match_n is_digit 2 s4) (\<lambda>(d, s5).
     Some (y @ ''-'' @ m @ ''-'' @ d, s5))))))"

definition match_time :: "string \<Rightarrow> (string \<times> string) option" where
  \<comment> \<open>\<^verbatim>\<open>\d{2}:\d{2}:\d{2}\<close>\<close>
  "match_time s =
     Option.bind (match_n is_digit 2 s) (\<lambda>(h, s1).
     Option.bind (match_chr CHR '':'' s1) (\<lambda>s2.
     Option.bind (match_n is_digit 2 s2) (\<lambda>(m, s3).
     Option.bind (match_chr CHR '':'' s3) (\<lambda>s4.
     Option.bind (match_n is_digit 2 s4) (\<lambda>(sec, s5).
     Some (h @ '':'' @ m @ '':'' @ sec, s5))))))"

definition match_decimal :: "string \<Rightarrow> (string \<times> string) option" where
  \<comment> \<open>\<^verbatim>\<open>\d+\.\d+\<close>\<close>
  "match_decimal s =
     Option.bind (match_plus is_digit s) (\<lambda>(i, s1).
     Option.bind (match_chr CHR ''.'' s1) (\<lambda>s2.
     Option.bind (match_plus is_digit s2) (\<lambda>(f, s3).
     Some (i @ ''.'' @ f, s3))))"

definition skip_int :: "string \<Rightarrow> string option" where
  \<comment> \<open>\<^verbatim>\<open>\s+\d+\<close>, no group\<close>
  "skip_int s =
     Option.bind (match_plus is_space s) (\<lambda>(sp, s1).
     Option.bind (match_plus is_digit s1) (\<lambda>(ds, s2). Some s2))"

record line_groups =
  s_date :: string
  s_time :: string
  s_freq_mhz :: string
  s_linetype :: string
  s_string :: string

definition re_line :: "string \<Rightarrow> line_groups option" where
  \<comment> \<open>\<^verbatim>\<open>re_line.match(l)\<close> and its five groups\<close>
  "re_line l =
     Option.bind (match_date l) (\<lambda>(g1, r1).
     Option.bind (match_chr CHR '' '' r1) (\<lambda>r2.
     Option.bind (match_time r2) (\<lambda>(g2, r3).
     Option.bind (match_plus is_space r3) (\<lambda>(sp1, r4).
     Option.bind (match_decimal r4) (\<lambda>(g3, r5).
     Option.bind (skip_int r5) (\<lambda>r6.
     Option.bind (skip_int r6) (\<lambda>r7.
     Option.bind (skip_int r7) (\<lambda>r8.
     Option.bind (match_plus is_space r8) (\<lambda>(sp2, r9).
     Option.bind (match_plus is_word r9) (\<lambda>(w, r10).
     Option.bind (match_chr CHR '':'' r10) (\<lambda>r11.
     Option.bind (match_plus is_space r11) (\<lambda>(sp3, r12).
     Some \<lparr>s_date = g1, s_time = g2, s_freq_mhz = g3, s_linetype = w @ '':'',
           s_string = takeWhile (\<lambda>c. c \<noteq> newline) r12\<rparr>))))))))))))"

definition re_loc :: "string \<Rightarrow> bool" where
  \<comment> \<open>\<^verbatim>\<open>re_loc.match(s)\<close>; \<^verbatim>\<open>$\<close> also matches before a newline that ends the string\<close>
  "re_loc s =
     (case Option.bind (match_n is_upper 2 s) (\<lambda>(u, s1). match_n is_digit 2 s1) of
        None \<Rightarrow> False
      | Some (d, s2) \<Rightarrow> s2 = [] \<or> s2 = [newline])"

fun split_from :: "string \<Rightarrow> string \<Rightarrow> string list" where
  \<comment> \<open>the token being read (reversed), then the rest of the text\<close>
  "split_from cur [] = (if cur = [] then [] else [rev cur])"
| "split_from cur (c # cs) =
     (if is_space c then (if cur = [] then split_from [] cs else rev cur # split_from [] cs)
      else split_from (c # cur) cs)"

definition split :: "string \<Rightarrow> string list" where
  \<comment> \<open>\<^verbatim>\<open>s.split()\<close>: the maximal runs of characters that are not white space\<close>
  "split s = split_from [] s"

definition is_leap :: "int \<Rightarrow> bool" where
  "is_leap y = (y mod 4 = 0 \<and> (0 < y mod 100 \<or> y mod 400 = 0))"

definition days_in_month :: "int \<Rightarrow> int \<Rightarrow> int" where
  "days_in_month y m = (if m = 2 then (if is_leap y then 29 else 28)
     else if m = 4 \<or> m = 6 \<or> m = 9 \<or> m = 11 then 30 else 31)"

definition num :: "string \<Rightarrow> int" where
  "num s = digits_val 0 s"

definition strptime :: "string \<Rightarrow> datetime option" where
  \<comment> \<open>\<^verbatim>\<open>datetime.strptime(s, '%Y-%m-%d %H:%M:%S')\<close> on the strings \<^verbatim>\<open>convert\<close> builds for it,
      a date and a time of \<^verbatim>\<open>re_line\<close> with one space between; \<open>None\<close> is \<^verbatim>\<open>ValueError\<close>
      (a field out of range, or no such day in the month)\<close>
  "strptime s =
     Option.bind (match_date s) (\<lambda>(dt, r1).
     Option.bind (match_chr CHR '' '' r1) (\<lambda>r2.
     Option.bind (match_time r2) (\<lambda>(tm, r3).
       let y = num (take 4 dt); mo = num (take 2 (drop 5 dt)); d = num (drop 8 dt);
           h = num (take 2 tm); mi = num (take 2 (drop 3 tm)); sec = num (drop 6 tm)
       in if r3 = [] \<and> 1 \<le> y \<and> 1 \<le> mo \<and> mo \<le> 12 \<and> 1 \<le> d \<and> d \<le> days_in_month y mo \<and>
             h \<le> 23 \<and> mi \<le> 59 \<and> sec \<le> 59
          then Some \<lparr>year = y, month = mo, day = d, hour = h, minute = mi, second = sec\<rparr>
          else None)))"

subsection \<open>The conversion\<close>

datatype error = ValueError | OverflowError

datatype channel = Stdout | Outfile

record args =
  mycall :: string
  tz :: "datetime \<Rightarrow> datetime option"
  outfile :: "string option"
  tx_power :: "int option"

text \<open>
  \<open>tz\<close> stands for the zone that \<^verbatim>\<open>pytz.timezone(args.tz)\<close> returns: the function is
  \<^verbatim>\<open>tz_local.localize(d).astimezone(pytz.utc)\<close>, and \<open>None\<close> where that raises (a time that
  leaves the years 1 to 9999).  \<open>tx_power\<close> is \<^verbatim>\<open>args.power\<close>.  The input stream is an
  argument of \<open>convert\<close>, the list of its lines.
\<close>

definition utc :: "datetime \<Rightarrow> datetime option" where
  \<comment> \<open>the default zone, UTC\<close>
  "utc d = Some d"

record pending =
  freq :: string
  loc :: string
  s_db_sent :: string

text \<open>
  A write is recorded with the statement that made it: the header, the row of a finished
  contact, or the diagnostic for a line.  \<open>text_of\<close> is the text that reaches the channel.
\<close>

datatype wr = Header | Record row | Diagnostic string

record state =
  ongoing :: "string \<rightharpoonup> pending"
  written :: "(channel \<times> wr) list"

definition text_of :: "wr \<Rightarrow> string" where
  "text_of w = (case w of
       Header \<Rightarrow> ''wsjtx fox ADIF Export<eoh>'' @ [newline]
     | Record h \<Rightarrow> adif_row h
     | Diagnostic l \<Rightarrow> ''rx: Not enough arguments: '' @ l @ [newline])"

definition outf :: "args \<Rightarrow> channel" where
  \<comment> \<open>the file of \<^verbatim>\<open>--out\<close> if one is given, else \<^verbatim>\<open>sys.stdout\<close>\<close>
  "outf a = (case outfile a of None \<Rightarrow> Stdout | Some p \<Rightarrow> if p = [] then Stdout else Outfile)"

definition write_to :: "channel \<Rightarrow> wr \<Rightarrow> state \<Rightarrow> state" where
  "write_to ch w s = s\<lparr>written := written s @ [(ch, w)]\<rparr>"

definition print :: "wr \<Rightarrow> state \<Rightarrow> state" where
  \<comment> \<open>\<^verbatim>\<open>print(x)\<close> writes the text and a newline to \<^verbatim>\<open>sys.stdout\<close>\<close>
  "print w s = write_to Stdout w s"

definition startswith :: "string \<Rightarrow> char \<Rightarrow> bool" where
  "startswith s c = (case s of [] \<Rightarrow> False | x # xs \<Rightarrow> x = c)"

definition endswith :: "string \<Rightarrow> char \<Rightarrow> bool" where
  "endswith s c = (case rev s of [] \<Rightarrow> False | x # xs \<Rightarrow> x = c)"

definition strip_brackets :: "string \<Rightarrow> string" where
  \<comment> \<open>strip \<^verbatim>\<open><OH0/OH7LZB>\<close> to \<^verbatim>\<open>OH0/OH7LZB\<close>: \<^verbatim>\<open>call[1:-1]\<close>\<close>
  "strip_brackets call =
     (if startswith call CHR ''<'' \<and> endswith call CHR ''>'' then butlast (tl call) else call)"

definition qso :: "args \<Rightarrow> string \<Rightarrow> pending \<Rightarrow> string \<Rightarrow> datetime \<Rightarrow> row option" where
  \<comment> \<open>the dictionary \<^verbatim>\<open>o\<close> of a finished contact; \<open>None\<close> is the \<^verbatim>\<open>ValueError\<close> of
      \<^verbatim>\<open>int\<close> or \<^verbatim>\<open>float\<close>\<close>
  "qso a call q s_db_rx d_dt_utc =
     Option.bind (adif_db (s_db_sent q)) (\<lambda>rst_sent.
     Option.bind (adif_db s_db_rx) (\<lambda>rst_rcvd.
     Option.bind (py_float (freq q)) (\<lambda>f.
     Some ([(''call'', Some call),
            (''mode'', Some ''FT8''),
            (''rst_sent'', Some rst_sent),
            (''rst_rcvd'', Some rst_rcvd),
            (''qso_date'', Some (adif_date d_dt_utc)),
            (''time_on'', Some (adif_time d_dt_utc)),
            (''qso_date_off'', Some (adif_date d_dt_utc)),
            (''time_off'', Some (adif_time d_dt_utc)),
            (''band'', freq_to_band_float (float_mul f 1000)),
            (''freq'', Some (fmt_3f f)),
            (''station_callsign'', Some (mycall a))]
           @ (if re_loc (loc q) then [(''gridsquare'', Some (loc q))] else [])
           @ (case tx_power a of None \<Rightarrow> []
              | Some p \<Rightarrow> if p = 0 then [] else [(''tx_pwr'', Some (fmt_d p))])))))"

definition on_sel :: "line_groups \<Rightarrow> state \<Rightarrow> error + state" where
  \<comment> \<open>a station was selected by the operator for working; the unpacking of a list that
      has not three elements raises\<close>
  "on_sel g s =
     (let ts = split (s_string g) in
      if length ts = 3 then
        Inr (s\<lparr>ongoing := (ongoing s)(ts ! 0 \<mapsto>
               \<lparr>freq = s_freq_mhz g, loc = ts ! 2, s_db_sent = ts ! 1\<rparr>)\<rparr>)
      else Inl ValueError)"

definition log_qso :: "args \<Rightarrow> datetime \<Rightarrow> string \<Rightarrow> string \<Rightarrow> state \<Rightarrow> error + state" where
  \<comment> \<open>an ongoing QSO that we selected, and the report is a R: log it, forget the ongoing QSO\<close>
  "log_qso a d_dt call report_rx s =
     (case ongoing s call of
        None \<Rightarrow> Inr s
      | Some q \<Rightarrow>
          if startswith report_rx CHR ''R'' then
            (case tz a d_dt of
               None \<Rightarrow> Inl OverflowError
             | Some d_dt_utc \<Rightarrow>
                 (case qso a call q (tl report_rx) d_dt_utc of
                    None \<Rightarrow> Inl ValueError
                  | Some h \<Rightarrow>
                      Inr ((write_to (outf a) (Record h) s)\<lparr>ongoing := (ongoing s)(call := None)\<rparr>)))
          else Inr s)"

definition on_rx :: "args \<Rightarrow> string \<Rightarrow> datetime \<Rightarrow> line_groups \<Rightarrow> state \<Rightarrow> error + state" where
  \<comment> \<open>we received something; the unpacking of more than eight elements raises\<close>
  "on_rx a l d_dt g s =
     (let ts = split (s_string g) in
      if length ts < 8 then Inr (print (Diagnostic l) s)
      else if 8 < length ts then Inl ValueError
      else log_qso a d_dt (strip_brackets (ts ! 6)) (ts ! 7) s)"

definition body :: "args \<Rightarrow> string \<Rightarrow> state \<Rightarrow> error + state" where
  \<comment> \<open>one round of \<^verbatim>\<open>for l in inf\<close>\<close>
  "body a l s =
     (case re_line l of
        None \<Rightarrow> Inr s
      | Some g \<Rightarrow>
          (case strptime (s_date g @ '' '' @ s_time g) of
             None \<Rightarrow> Inl ValueError
           | Some d_dt \<Rightarrow>
               if s_linetype g = ''Sel:'' then on_sel g s
               else if s_linetype g = ''Rx:'' then on_rx a l d_dt g s
               else Inr s))"

fun loop :: "args \<Rightarrow> string list \<Rightarrow> state \<Rightarrow> error option \<times> state" where
  \<comment> \<open>the lines in order; an exception ends the run and leaves what was written\<close>
  "loop a [] s = (None, s)"
| "loop a (l # ls) s = (case body a l s of Inl e \<Rightarrow> (Some e, s) | Inr s' \<Rightarrow> loop a ls s')"

definition start :: "args \<Rightarrow> state" where
  \<comment> \<open>the header is written, nothing is ongoing\<close>
  "start a = write_to (outf a) Header \<lparr>ongoing = Map.empty, written = []\<rparr>"

definition convert :: "args \<Rightarrow> string list \<Rightarrow> error option \<times> state" where
  "convert a inf_lines = loop a inf_lines (start a)"

definition stream_text :: "channel \<Rightarrow> state \<Rightarrow> string" where
  \<comment> \<open>the text that a channel has received\<close>
  "stream_text ch s = concat (map (\<lambda>w. text_of (snd w)) (filter (\<lambda>w. fst w = ch) (written s)))"

subsection \<open>Kinds of lines\<close>

text \<open>
  The lines that the loop acts on, read off the tests of its body: a selection line with
  its three tokens, a receive line with its eight tokens (the remote call sign without
  brackets, and the report token), and a receive line with fewer than eight tokens.  All of
  them match \<^verbatim>\<open>re_line\<close> and carry a time stamp that \<^verbatim>\<open>strptime\<close> accepts.
\<close>

definition parsed :: "string \<Rightarrow> (line_groups \<times> datetime) option" where
  "parsed l = Option.bind (re_line l) (\<lambda>g.
     map_option (\<lambda>d. (g, d)) (strptime (s_date g @ '' '' @ s_time g)))"

definition sel_line :: "string \<Rightarrow> (string \<times> pending) option" where
  "sel_line l = Option.bind (parsed l) (\<lambda>(g, d).
     let ts = split (s_string g) in
     if s_linetype g = ''Sel:'' \<and> length ts = 3
     then Some (ts ! 0, \<lparr>freq = s_freq_mhz g, loc = ts ! 2, s_db_sent = ts ! 1\<rparr>)
     else None)"

definition rx_line :: "string \<Rightarrow> (datetime \<times> string \<times> string) option" where
  "rx_line l = Option.bind (parsed l) (\<lambda>(g, d).
     let ts = split (s_string g) in
     if s_linetype g = ''Rx:'' \<and> length ts = 8
     then Some (d, strip_brackets (ts ! 6), ts ! 7)
     else None)"

definition short_rx_line :: "string \<Rightarrow> bool" where
  "short_rx_line l = (case parsed l of None \<Rightarrow> False
     | Some (g, d) \<Rightarrow> s_linetype g = ''Rx:'' \<and> length (split (s_string g)) < 8)"

definition completes :: "string \<Rightarrow> string \<Rightarrow> bool" where
  \<comment> \<open>a receive line for the call sign with a report that starts with R\<close>
  "completes call l = (case rx_line l of None \<Rightarrow> False
     | Some (d, c, report_rx) \<Rightarrow> c = call \<and> startswith report_rx CHR ''R'')"

definition is_grid4 :: "string \<Rightarrow> bool" where
  \<comment> \<open>the pattern in the words of the specification: exactly two uppercase letters followed
      by two digits\<close>
  "is_grid4 t = (length t = 4 \<and> is_upper (t ! 0) \<and> is_upper (t ! 1) \<and>
     is_digit (t ! 2) \<and> is_digit (t ! 3))"

definition is_token :: "string \<Rightarrow> bool" where
  \<comment> \<open>an element of \<^verbatim>\<open>s.split()\<close>: not empty, no white space\<close>
  "is_token t = (t \<noteq> [] \<and> list_all (\<lambda>c. \<not> is_space c) t)"

definition pending_ok :: "pending \<Rightarrow> bool" where
  \<comment> \<open>what every stored entry satisfies: the groups and tokens of a selection line\<close>
  "pending_ok q = (is_float_literal (freq q) \<and> is_token (loc q) \<and> is_token (s_db_sent q))"

subsection \<open>Example input\<close>

definition example_args :: args where
  \<comment> \<open>own call sign N0CALL, time zone UTC, standard output, no power\<close>
  "example_args = \<lparr>mycall = ''N0CALL'', tz = utc, outfile = None, tx_power = None\<rparr>"


definition example_sel :: string where
  "example_sel = ''2019-11-22 05:25:37  21.091  1  0  0 Sel:  JM1LSQ      -17 QM05'' @ [newline]"

definition example_rx :: string where
  "example_rx =
     ''2019-11-22 05:26:29  21.091  0  1  1 Rx:   052615  -8 -0.0  300 ~  XZ2D JM1LSQ R+01'' @
     [newline]"

definition example_rx_rr73 :: string where
  \<comment> \<open>the same reply with the report token RR73\<close>
  "example_rx_rr73 =
     ''2019-11-22 05:26:29  21.091  0  1  1 Rx:   052615  -8 -0.0  300 ~  XZ2D JM1LSQ RR73'' @
     [newline]"

definition example_rx_short :: string where
  \<comment> \<open>a receive line with seven tokens\<close>
  "example_rx_short =
     ''2019-11-22 05:26:29  21.091  0  1  1 Rx:   052615  -8 -0.0  300 ~  XZ2D JM1LSQ'' @
     [newline]"


definition example_call_latin :: string where
  \<comment> \<open>a call sign that starts with a capital O with diaeresis, code point 214\<close>
  "example_call_latin = CHR 0xD6 # ''H7LZB''"

definition example_rx_long :: string where
  \<comment> \<open>a receive line with nine tokens\<close>
  "example_rx_long =
     ''2019-11-22 05:26:29  21.091  0  1  1 Rx:   052615  -8 -0.0  300 ~  XZ2D JM1LSQ R+01 x'' @
     [newline]"

definition example_sel_short :: string where
  \<comment> \<open>a selection line without a locator\<close>
  "example_sel_short = ''2019-11-22 05:25:37  21.091  1  0  0 Sel:  JM1LSQ      -17'' @ [newline]"

definition example_sel_other :: string where
  \<comment> \<open>an earlier selection of the same station, on another band\<close>
  "example_sel_other =
     ''2019-11-22 05:20:00  14.074  1  0  0 Sel:  JM1LSQ      -05 PM95'' @ [newline]"

definition example_sel_offband :: string where
  \<comment> \<open>a selection on 22 MHz, outside every band, without a locator\<close>
  "example_sel_offband =
     ''2019-11-22 05:25:37  22.000  1  0  0 Sel:  JM1LSQ      -17 none'' @ [newline]"

definition example_row :: row where
  "example_row =
     [(''call'', Some ''JM1LSQ''), (''mode'', Some ''FT8''), (''rst_sent'', Some ''-17''),
      (''rst_rcvd'', Some ''+01''), (''qso_date'', Some ''20191122''),
      (''time_on'', Some ''052629''), (''qso_date_off'', Some ''20191122''),
      (''time_off'', Some ''052629''), (''band'', Some ''15m''), (''freq'', Some ''21.091''),
      (''station_callsign'', Some ''N0CALL''), (''gridsquare'', Some ''QM05'')]"

section \<open>Properties\<close>

subsection \<open>Numbers and text\<close>

lemma band_loop_find:
  "band_loop bs f = map_option fst (find (\<lambda>(b, lo, hi). lo \<le> f \<and> f \<le> hi) bs)"
  by (induction bs f rule: band_loop.induct) simp_all

lemma digit_val_digit_chr: "0 \<le> d \<Longrightarrow> d < 10 \<Longrightarrow> digit_val (digit_chr d) = d"
  by (simp add: digit_val_def digit_chr_def code_def)

lemma is_digit_digit_chr: "0 \<le> d \<Longrightarrow> d < 10 \<Longrightarrow> is_digit (digit_chr d)"
  by (simp add: is_digit_def digit_chr_def code_def)

lemma digits_val_snoc: "digits_val acc (xs @ [c]) = 10 * digits_val acc xs + digit_val c"
  by (induction xs arbitrary: acc) simp_all

lemma dec_str_digits: "0 \<le> n \<Longrightarrow> list_all is_digit (dec_str n) \<and> dec_str n \<noteq> []"
proof (induction n rule: dec_str.induct)
  case (1 n)
  show ?case
  proof (cases "n < 10")
    case True
    with 1 show ?thesis by (simp add: dec_str.simps [of n] is_digit_digit_chr)
  next
    case False
    with 1 have "list_all is_digit (dec_str (n div 10))" by simp
    moreover have "is_digit (digit_chr (n mod 10))" by (simp add: is_digit_digit_chr)
    ultimately show ?thesis using False by (simp add: dec_str.simps [of n])
  qed
qed

lemma dec_str_value: "0 \<le> n \<Longrightarrow> digits_val 0 (dec_str n) = n"
proof (induction n rule: dec_str.induct)
  case (1 n)
  show ?case
  proof (cases "n < 10")
    case True
    with 1 show ?thesis by (simp add: dec_str.simps [of n] digit_val_digit_chr)
  next
    case False
    with 1 have "digits_val 0 (dec_str (n div 10)) = n div 10" by simp
    then show ?thesis using False
      by (simp add: dec_str.simps [of n] digits_val_snoc digit_val_digit_chr)
  qed
qed

lemma int_digits_all_digits:
  "list_all is_digit cs \<Longrightarrow> int_digits acc cs = Some (digits_val acc cs)"
  by (induction acc cs rule: int_digits.induct) simp_all

lemma int_unsigned_dec_str: "0 \<le> n \<Longrightarrow> int_unsigned (dec_str n) = Some n"
proof -
  assume n: "0 \<le> n"
  then obtain c cs where e: "dec_str n = c # cs" and d: "is_digit c" "list_all is_digit cs"
    using dec_str_digits [of n] by (cases "dec_str n") auto
  have "digits_val 0 (c # cs) = n" using dec_str_value [OF n] e by simp
  then show ?thesis using e d by (simp add: int_unsigned_def int_digits_all_digits)
qed

lemma fmt_d_length_digits:
  "list_all is_digit (fmt_d (int (length v))) \<and>
   digits_val 0 (fmt_d (int (length v))) = int (length v)"
  using dec_str_digits [of "int (length v)"] dec_str_value [of "int (length v)"]
  by (simp add: fmt_d_def)

lemma join_sep_concat:
  "xs \<noteq> [] \<Longrightarrow> join sep xs @ sep = concat (map (\<lambda>x. x @ sep) xs)"
  by (induction sep xs rule: join.induct) simp_all

subsection \<open>Lines, tokens and the loop\<close>

lemma newline_is_space: "is_space newline"
  by (simp add: is_space_def newline_def code_def)

lemma split_from_tokens:
  "list_all (\<lambda>c. \<not> is_space c) cur \<Longrightarrow> t \<in> set (split_from cur s) \<Longrightarrow> is_token t"
proof (induction s arbitrary: cur)
  case Nil
  then show ?case by (auto simp: is_token_def split: if_splits)
next
  case (Cons c cs)
  show ?case
  proof (cases "is_space c")
    case True
    with Cons.prems have "t = rev cur \<and> cur \<noteq> [] \<or> t \<in> set (split_from [] cs)"
      by (auto split: if_splits)
    then show ?thesis
    proof
      assume "t = rev cur \<and> cur \<noteq> []"
      with Cons.prems(1) show ?thesis by (simp add: is_token_def)
    next
      assume "t \<in> set (split_from [] cs)"
      then show ?thesis using Cons.IH [of "[]"] by simp
    qed
  next
    case False
    with Cons.prems have "t \<in> set (split_from (c # cur) cs)" by simp
    moreover have "list_all (\<lambda>c. \<not> is_space c) (c # cur)" using False Cons.prems(1) by simp
    ultimately show ?thesis using Cons.IH by blast
  qed
qed

lemma split_tokens: "t \<in> set (split s) \<Longrightarrow> is_token t"
  using split_from_tokens [of "[]" t s] by (simp add: split_def)

lemma split_nth_token: "i < length (split s) \<Longrightarrow> is_token (split s ! i)"
  using split_tokens nth_mem by blast

lemma re_loc_token: "is_token t \<Longrightarrow> re_loc t = is_grid4 t"
proof -
  assume tok: "is_token t"
  then have nl: "newline \<notin> set t"
    using newline_is_space by (auto simp: is_token_def list_all_iff)
  show ?thesis
  proof (cases "4 \<le> length t")
    case False
    then show ?thesis
      by (auto simp: re_loc_def match_n_def is_grid4_def split: if_splits)
  next
    case True
    then obtain a b c d r where t: "t = a # b # c # d # r"
      by (cases t; cases "tl t"; cases "tl (tl t)"; cases "tl (tl (tl t))") auto
    with nl have "r \<noteq> [newline]" by auto
    with t show ?thesis
      by (auto simp: re_loc_def match_n_def is_grid4_def numeral_2_eq_2)
  qed
qed

lemma takeWhile_digits_dot:
  "list_all is_digit i \<Longrightarrow> takeWhile is_digit (i @ CHR ''.'' # f) = i \<and>
     dropWhile is_digit (i @ CHR ''.'' # f) = CHR ''.'' # f"
  by (induction i) (simp_all add: is_digit_def code_def)

lemma match_plus_Some:
  "match_plus P s = Some (x, r) \<Longrightarrow> x \<noteq> [] \<and> list_all P x \<and> s = x @ r"
  by (auto simp: match_plus_def list_all_iff split: if_splits dest: set_takeWhileD)

lemma match_decimal_literal: "match_decimal s = Some (g, r) \<Longrightarrow> is_float_literal g"
proof -
  assume "match_decimal s = Some (g, r)"
  then obtain i s1 s2 f where
    i: "match_plus is_digit s = Some (i, s1)" and
    f: "match_plus is_digit s2 = Some (f, r)" and g: "g = i @ ''.'' @ f"
    by (auto simp: match_decimal_def bind_eq_Some_conv)
  from i f have "i \<noteq> []" "list_all is_digit i" "f \<noteq> []" "list_all is_digit f"
    using match_plus_Some by blast+
  then show ?thesis
    using takeWhile_digits_dot [of i f] g by (simp add: is_float_literal_def)
qed

lemma re_line_freq: "re_line l = Some g \<Longrightarrow> is_float_literal (s_freq_mhz g)"
  by (auto simp: re_line_def bind_eq_Some_conv dest: match_decimal_literal)

lemma py_float_literal: "is_float_literal s \<Longrightarrow> \<exists>f. py_float s = Some f"
  by (simp add: py_float_def Let_def)

lemma loop_append:
  "loop a (xs @ ys) s =
     (case loop a xs s of (None, s') \<Rightarrow> loop a ys s' | (Some e, s') \<Rightarrow> (Some e, s'))"
  by (induction xs arbitrary: s) (simp_all split: sum.splits)

lemma body_rx_line: "rx_line l = Some (d, c, rep) \<Longrightarrow> body a l s = log_qso a d c rep s"
  by (auto simp: rx_line_def parsed_def body_def on_rx_def Let_def bind_eq_Some_conv
      split: if_splits)

lemma body_sel_line:
  "sel_line l = Some (c, q) \<Longrightarrow> body a l s = Inr (s\<lparr>ongoing := (ongoing s)(c \<mapsto> q)\<rparr>)"
  by (auto simp: sel_line_def parsed_def body_def on_sel_def Let_def bind_eq_Some_conv
      split: if_splits)

lemma body_short_rx_line: "short_rx_line l \<Longrightarrow> body a l s = Inr (print (Diagnostic l) s)"
  by (auto simp: short_rx_line_def parsed_def body_def on_rx_def Let_def bind_eq_Some_conv
      split: option.splits if_splits)

lemma sel_line_pending_ok: "sel_line l = Some (c, q) \<Longrightarrow> pending_ok q"
  by (auto simp: sel_line_def parsed_def pending_ok_def Let_def bind_eq_Some_conv
      split_nth_token re_line_freq split: if_splits)


lemma log_qso_cases:
  "log_qso a d c rep s = Inr s' \<Longrightarrow>
     s' = s \<or> (\<exists>h. s' = s\<lparr>written := written s @ [(outf a, Record h)],
                           ongoing := (ongoing s)(c := None)\<rparr>)"
  by (auto simp: log_qso_def write_to_def split: option.splits if_splits)

lemma body_cases:
  "body a l s = Inr s' \<Longrightarrow>
     s' = s \<or>
     (\<exists>c q. sel_line l = Some (c, q) \<and> s' = s\<lparr>ongoing := (ongoing s)(c \<mapsto> q)\<rparr>) \<or>
     (short_rx_line l \<and> s' = s\<lparr>written := written s @ [(Stdout, Diagnostic l)]\<rparr>) \<or>
     (\<exists>d c rep h. rx_line l = Some (d, c, rep) \<and>
        s' = s\<lparr>written := written s @ [(outf a, Record h)], ongoing := (ongoing s)(c := None)\<rparr>)"
proof (cases "parsed l")
  case None
  then show "body a l s = Inr s' \<Longrightarrow> ?thesis"
    by (auto simp: body_def parsed_def bind_eq_None_conv split: option.splits)
next
  case (Some p)
  obtain g d where p: "p = (g, d)" by (cases p)
  assume b: "body a l s = Inr s'"
  from Some p have g: "re_line l = Some g" "strptime (s_date g @ '' '' @ s_time g) = Some d"
    by (auto simp: parsed_def bind_eq_Some_conv)
  consider (sel) "s_linetype g = ''Sel:''" | (rx) "s_linetype g = ''Rx:''"
    | (other) "s_linetype g \<noteq> ''Sel:''" "s_linetype g \<noteq> ''Rx:''" by blast
  then show ?thesis
  proof cases
    case sel
    with b g have len: "length (split (s_string g)) = 3"
      by (auto simp: body_def on_sel_def Let_def split: if_splits)
    then have "sel_line l = Some (split (s_string g) ! 0,
        \<lparr>freq = s_freq_mhz g, loc = split (s_string g) ! 2, s_db_sent = split (s_string g) ! 1\<rparr>)"
      using Some p sel by (simp add: sel_line_def Let_def)
    moreover from b g sel len have "s' = s\<lparr>ongoing := (ongoing s)(split (s_string g) ! 0 \<mapsto>
        \<lparr>freq = s_freq_mhz g, loc = split (s_string g) ! 2, s_db_sent = split (s_string g) ! 1\<rparr>)\<rparr>"
      by (auto simp: body_def on_sel_def Let_def)
    ultimately show ?thesis by blast
  next
    case rx
    then have nsel: "s_linetype g \<noteq> ''Sel:''" by simp
    show ?thesis
    proof (cases "length (split (s_string g)) < 8")
      case True
      then have "short_rx_line l" using Some p rx by (simp add: short_rx_line_def)
      moreover from b g rx nsel True have "s' = s\<lparr>written := written s @ [(Stdout, Diagnostic l)]\<rparr>"
        by (auto simp: body_def on_rx_def Let_def print_def write_to_def)
      ultimately show ?thesis by blast
    next
      case False
      with b g rx nsel have len: "length (split (s_string g)) = 8"
        by (auto simp: body_def on_rx_def Let_def split: if_splits)
      then have r: "rx_line l = Some (d, strip_brackets (split (s_string g) ! 6), split (s_string g) ! 7)"
        using Some p rx by (simp add: rx_line_def Let_def)
      from b body_rx_line [OF r] have
        "log_qso a d (strip_brackets (split (s_string g) ! 6)) (split (s_string g) ! 7) s = Inr s'"
        by simp
      from log_qso_cases [OF this] r show ?thesis by blast
    qed
  next
    case other
    with b g show ?thesis by (simp add: body_def)
  qed
qed

lemma body_pending_ok:
  assumes "body a l s = Inr s'" and "\<And>c q. ongoing s c = Some q \<Longrightarrow> pending_ok q"
    and "ongoing s' c = Some q"
  shows "pending_ok q"
  using body_cases [OF assms(1)] assms(2,3) sel_line_pending_ok
  by (auto split: if_splits)

lemma loop_pending_ok:
  "loop a ls s = (e, s') \<Longrightarrow> (\<And>c q. ongoing s c = Some q \<Longrightarrow> pending_ok q) \<Longrightarrow>
     ongoing s' c = Some q \<Longrightarrow> pending_ok q"
proof (induction ls arbitrary: s)
  case Nil
  then show ?case by simp
next
  case (Cons l ls)
  show ?case
  proof (cases "body a l s")
    case (Inl x)
    with Cons.prems show ?thesis by simp
  next
    case (Inr t)
    with Cons.prems have "loop a ls t = (e, s')" by simp
    moreover have "\<And>c q. ongoing t c = Some q \<Longrightarrow> pending_ok q"
      using body_pending_ok [OF Inr] Cons.prems(2) by blast
    ultimately show ?thesis using Cons.IH Cons.prems(3) by blast
  qed
qed

lemma convert_pending_ok: "convert a ls = (e, s) \<Longrightarrow> ongoing s c = Some q \<Longrightarrow> pending_ok q"
  using loop_pending_ok [of a ls "start a" e s c q]
  by (simp add: convert_def start_def write_to_def)

lemma convert_snoc:
  "convert a ls = (None, s) \<Longrightarrow>
     convert a (ls @ ms) = loop a ms s"
  by (simp add: convert_def loop_append)

lemma log_qso_logs:
  assumes "ongoing s c = Some q" "startswith rep CHR ''R''" "tz a d = Some u"
    "adif_db (s_db_sent q) = Some rs" "adif_db (tl rep) = Some rr" "is_float_literal (freq q)"
  shows "\<exists>h. qso a c q (tl rep) u = Some h \<and>
     log_qso a d c rep s =
       Inr (s\<lparr>written := written s @ [(outf a, Record h)], ongoing := (ongoing s)(c := None)\<rparr>)"
proof -
  from assms(6) obtain f where "py_float (freq q) = Some f" using py_float_literal by blast
  with assms(4,5) obtain h where "qso a c q (tl rep) u = Some h" by (simp add: qso_def)
  with assms(1,2,3) show ?thesis by (simp add: log_qso_def write_to_def)
qed

lemma log_qso_idle:
  "ongoing s c = None \<or> \<not> startswith rep CHR ''R'' \<Longrightarrow> log_qso a d c rep s = Inr s"
  by (auto simp: log_qso_def split: option.splits)

lemma log_qso_emits:
  assumes "log_qso a d c rep s = Inr s'" "ongoing s c = Some q" "startswith rep CHR ''R''"
  shows "\<exists>u h. tz a d = Some u \<and> qso a c q (tl rep) u = Some h \<and>
     s' = s\<lparr>written := written s @ [(outf a, Record h)], ongoing := (ongoing s)(c := None)\<rparr>"
  using assms by (auto simp: log_qso_def write_to_def split: option.splits)

lemma qso_pending_fields:
  assumes "qso a call q s_db_rx u = Some h"
  shows "map_of h ''call'' = Some (Some call) \<and>
     map_of h ''rst_sent'' = Some (adif_db (s_db_sent q)) \<and>
     map_of h ''rst_rcvd'' = Some (adif_db s_db_rx) \<and>
     (\<exists>f. py_float (freq q) = Some f \<and> map_of h ''freq'' = Some (Some (fmt_3f f)) \<and>
          map_of h ''band'' = Some (freq_to_band_float (float_mul f 1000))) \<and>
     map_of h ''gridsquare'' = (if re_loc (loc q) then Some (Some (loc q)) else None)"
  using assms
  by (auto simp: qso_def bind_eq_Some_conv split: option.splits if_splits)

lemma body_keeps_entry:
  assumes "body a m s = Inr s'" and "\<not> completes X m"
    and "map_option fst (sel_line m) \<noteq> Some X"
  shows "ongoing s' X = ongoing s X"
proof (cases "rx_line m")
  case (Some r)
  obtain d c rep where r: "r = (d, c, rep)" by (cases r)
  with Some assms(1) have l: "log_qso a d c rep s = Inr s'"
    using body_rx_line [of m d c rep a s] by simp
  show ?thesis
  proof (cases "c = X")
    case True
    with Some r assms(2) have "\<not> startswith rep CHR ''R''" by (simp add: completes_def)
    with l show ?thesis by (simp add: log_qso_idle)
  next
    case False
    with log_qso_cases [OF l] show ?thesis by auto
  qed
next
  case None
  with body_cases [OF assms(1)] assms(3) show ?thesis by auto
qed

lemma loop_keeps_entry:
  "list_all (\<lambda>m. \<not> completes X m \<and> map_option fst (sel_line m) \<noteq> Some X) ls \<Longrightarrow>
     loop a ls s = (None, s') \<Longrightarrow> ongoing s' X = ongoing s X"
proof (induction ls arbitrary: s)
  case Nil
  then show ?case by simp
next
  case (Cons m ls)
  show ?case
  proof (cases "body a m s")
    case (Inl e)
    with Cons.prems show ?thesis by simp
  next
    case (Inr t)
    with Cons.prems have "loop a ls t = (None, s')" by simp
    with Cons.IH Cons.prems(1) have "ongoing s' X = ongoing t X" by simp
    moreover have "ongoing t X = ongoing s X"
      using body_keeps_entry [OF Inr] Cons.prems(1) by simp
    ultimately show ?thesis by simp
  qed
qed

subsection \<open>The band resolver\<close>

text \<open>
  C4.  For every frequency in kHz, band resolution returns the first band name, in the
  declaration order 160m, 80m, 60m, 40m, 30m, 20m, 17m, 15m, 12m, 10m, 6m, 2m, 70cm, whose
  inclusive range contains the frequency.  A frequency strictly inside a declared range
  gets that band, and a frequency outside all declared ranges gets no band.
\<close>

theorem freq_to_band_first_match:
  "map fst BAND_FREQ =
     [''160m'', ''80m'', ''60m'', ''40m'', ''30m'', ''20m'', ''17m'', ''15m'', ''12m'', ''10m'',
      ''6m'', ''2m'', ''70cm''] \<and>
   freq_to_band f = map_option fst (find (\<lambda>(b, lo, hi). lo \<le> f \<and> f \<le> hi) BAND_FREQ) \<and>
   (\<forall>(b, lo, hi) \<in> set BAND_FREQ. lo < f \<and> f < hi \<longrightarrow> freq_to_band f = Some b) \<and>
   ((\<forall>(b, lo, hi) \<in> set BAND_FREQ. f < lo \<or> hi < f) \<longrightarrow> freq_to_band f = None)"
proof (intro conjI)
  show "map fst BAND_FREQ =
     [''160m'', ''80m'', ''60m'', ''40m'', ''30m'', ''20m'', ''17m'', ''15m'', ''12m'', ''10m'',
      ''6m'', ''2m'', ''70cm'']"
    by (simp add: BAND_FREQ_def)
  show "freq_to_band f = map_option fst (find (\<lambda>(b, lo, hi). lo \<le> f \<and> f \<le> hi) BAND_FREQ)"
    by (simp add: freq_to_band_def band_loop_find)
  show "\<forall>(b, lo, hi) \<in> set BAND_FREQ. lo < f \<and> f < hi \<longrightarrow> freq_to_band f = Some b"
    by (simp add: freq_to_band_def BAND_FREQ_def)
  show "(\<forall>(b, lo, hi) \<in> set BAND_FREQ. f < lo \<or> hi < f) \<longrightarrow> freq_to_band f = None"
    by (simp add: freq_to_band_def BAND_FREQ_def)
qed

theorem freq_to_band_first_match_witness:
  "(''15m'', 21000, 21450) \<in> set BAND_FREQ \<and> (21000 :: rat) < 21091 \<and> (21091 :: rat) < 21450 \<and>
   freq_to_band 21091 = Some ''15m'' \<and>
   list_all (\<lambda>(b, lo, hi). (22000 :: rat) < lo \<or> hi < 22000) BAND_FREQ \<and>
   freq_to_band 22000 = None"
proof -
  have m: "(''15m'', 21000, 21450) \<in> set BAND_FREQ" by (simp add: BAND_FREQ_def)
  have o: "\<forall>(b, lo, hi) \<in> set BAND_FREQ. (22000 :: rat) < lo \<or> hi < 22000"
    by (simp add: BAND_FREQ_def)
  from m freq_to_band_first_match [of 21091] have "freq_to_band 21091 = Some ''15m''"
    by fastforce
  moreover from o freq_to_band_first_match [of 22000] have "freq_to_band 22000 = None"
    by blast
  ultimately show ?thesis using m o by (simp add: list_all_iff)
qed

subsection \<open>The encoder\<close>

text \<open>
  C7, as amended.  Field encoding produces the key, the length of the value in characters
  (Python's \<^verbatim>\<open>len\<close>, which is the byte length when the value is ASCII), then the literal
  value: the value \<open>-07\<close> under the key \<open>rst_rcvd\<close> is encoded as \<open><rst_rcvd:3>-07\<close>, and the
  number in a tag is the decimal numeral of the length of the value.  Every row has its
  fields separated by single spaces (each field is followed by one) and ends with \<open> <eor>\<close>
  and a newline.
\<close>

theorem adif_field_row_encoding:
  "adif_field ''rst_rcvd'' (Some ''-07'') = ''<rst_rcvd:3>-07'' \<and>
   adif_field k (Some v) = ''<'' @ k @ '':'' @ fmt_d (int (length v)) @ ''>'' @ v \<and>
   list_all is_digit (fmt_d (int (length v))) \<and>
   digits_val 0 (fmt_d (int (length v))) = int (length v) \<and>
   (list_all (\<lambda>c. code c < 128) v \<longrightarrow> utf8_length v = length v) \<and>
   adif_row h = join '' '' (map (\<lambda>(k, v). adif_field k v) h) @ '' <eor>'' @ [CHR 0x0A] \<and>
   (h \<noteq> [] \<longrightarrow>
      adif_row h = concat (map (\<lambda>(k, v). adif_field k v @ '' '') h) @ ''<eor>'' @ [CHR 0x0A]) \<and>
   suffix ('' <eor>'' @ [CHR 0x0A]) (adif_row h)"
proof (intro conjI impI)
  show "adif_field ''rst_rcvd'' (Some ''-07'') = ''<rst_rcvd:3>-07''"
    by code_simp
  show "adif_field k (Some v) = ''<'' @ k @ '':'' @ fmt_d (int (length v)) @ ''>'' @ v"
    by (simp add: adif_field_def)
  show "list_all is_digit (fmt_d (int (length v)))"
    using fmt_d_length_digits by blast
  show "digits_val 0 (fmt_d (int (length v))) = int (length v)"
    using fmt_d_length_digits by blast
  show "adif_row h = join '' '' (map (\<lambda>(k, v). adif_field k v) h) @ '' <eor>'' @ [CHR 0x0A]"
    by (simp add: adif_row_def newline_def)
  show "suffix ('' <eor>'' @ [CHR 0x0A]) (adif_row h)"
    by (simp add: adif_row_def newline_def suffix_def)
next
  assume "list_all (\<lambda>c. code c < 128) v"
  then have "filter (\<lambda>c. 128 \<le> code c) v = []"
    by (auto simp: filter_empty_conv list_all_iff)
  then show "utf8_length v = length v" by (simp add: utf8_length_def)
next
  assume "h \<noteq> []"
  then have "join '' '' (map (\<lambda>(k, v). adif_field k v) h) @ '' '' =
      concat (map (\<lambda>x. x @ '' '') (map (\<lambda>(k, v). adif_field k v) h))"
    by (simp add: join_sep_concat)
  also have "\<dots> = concat (map (\<lambda>(k, v). adif_field k v @ '' '') h)"
    by (simp add: comp_def case_prod_unfold)
  finally show "adif_row h =
      concat (map (\<lambda>(k, v). adif_field k v @ '' '') h) @ ''<eor>'' @ [CHR 0x0A]"
    by (simp add: adif_row_def newline_def)
qed

theorem adif_field_row_encoding_witness:
  "[(''rst_rcvd'', Some ''-07'')] \<noteq> [] \<and>
   adif_row [(''rst_rcvd'', Some ''-07'')] = ''<rst_rcvd:3>-07 <eor>'' @ [CHR 0x0A] \<and>
   list_all (\<lambda>c. code c < 128) ''-07'' \<and> utf8_length ''-07'' = 3"
proof -
  have a: "list_all (\<lambda>c. code c < 128) ''-07''" by code_simp
  from adif_field_row_encoding [of "''rst_rcvd''" "''-07''" "[(''rst_rcvd'', Some ''-07'')]"] a
  show ?thesis by simp
qed

theorem adif_field_byte_length_counterexample:
  "adif_field ''station_callsign'' (Some example_call_latin) =
     ''<station_callsign:6>'' @ example_call_latin \<and>
   length example_call_latin = 6 \<and> utf8_length example_call_latin = 7"
  by code_simp

subsection \<open>The example run\<close>

lemma example_sel_run:
  "fst (convert example_args [example_sel]) = None \<and>
   written (snd (convert example_args [example_sel])) = [(Stdout, Header)] \<and>
   ongoing (snd (convert example_args [example_sel])) ''JM1LSQ'' =
     Some \<lparr>freq = ''21.091'', loc = ''QM05'', s_db_sent = ''-17''\<rparr>"
  by code_simp

lemma example_sel_state:
  "convert example_args [example_sel] = (None, snd (convert example_args [example_sel]))"
  using example_sel_run by (simp add: prod_eq_iff)

lemma example_rx_line:
  "rx_line example_rx =
     Some (\<lparr>year = 2019, month = 11, day = 22, hour = 5, minute = 26, second = 29\<rparr>,
           ''JM1LSQ'', ''R+01'')"
  by code_simp

lemma example_rx_rr73_line:
  "rx_line example_rx_rr73 =
     Some (\<lparr>year = 2019, month = 11, day = 22, hour = 5, minute = 26, second = 29\<rparr>,
           ''JM1LSQ'', ''RR73'')"
  by code_simp

lemma example_reports:
  "adif_db ''-17'' = Some ''-17'' \<and> adif_db (tl ''R+01'') = Some ''+01'' \<and>
   adif_db (tl ''RR73'') = None \<and> startswith ''R+01'' CHR ''R'' \<and> startswith ''RR73'' CHR ''R''"
  by code_simp

lemma example_qso:
  "qso example_args ''JM1LSQ'' \<lparr>freq = ''21.091'', loc = ''QM05'', s_db_sent = ''-17''\<rparr> ''+01''
     \<lparr>year = 2019, month = 11, day = 22, hour = 5, minute = 26, second = 29\<rparr> = Some example_row"
  by code_simp

lemma empty_run: "convert a [] = (None, start a)" "ongoing (start a) c = None"
  "written (start a) = [(outf a, Header)]"
  by (simp_all add: convert_def start_def write_to_def)

subsection \<open>Receive lines\<close>

text \<open>
  Where the body of the loop gets through a receive line, it behaves as follows.  If the
  remote call sign (without brackets) is pending, the report token is an R followed by an
  integer, the stored sent report is an integer and the time converts to UTC, then one
  record is emitted and the call sign leaves the pending table, and the same line
  processed again emits nothing.  If the call sign is not pending or the report token
  does not start with R, nothing is emitted and the pending table is unchanged.
\<close>

lemma receive_line_logs_once:
  assumes "convert a ls = (None, s)" and "rx_line l = Some (d, call, report_rx)"
  shows "(\<forall>q. ongoing s call = Some q \<and> startswith report_rx CHR ''R'' \<and>
            adif_db (tl report_rx) \<noteq> None \<and> adif_db (s_db_sent q) \<noteq> None \<and> tz a d \<noteq> None \<longrightarrow>
          (\<exists>h. convert a (ls @ [l]) =
                  (None, s\<lparr>written := written s @ [(outf a, Record h)],
                           ongoing := (ongoing s)(call := None)\<rparr>) \<and>
               convert a (ls @ [l, l]) = convert a (ls @ [l]))) \<and>
         (ongoing s call = None \<or> \<not> startswith report_rx CHR ''R'' \<longrightarrow>
            convert a (ls @ [l]) = (None, s))"
proof (intro conjI allI impI)
  fix q
  assume h: "ongoing s call = Some q \<and> startswith report_rx CHR ''R'' \<and>
    adif_db (tl report_rx) \<noteq> None \<and> adif_db (s_db_sent q) \<noteq> None \<and> tz a d \<noteq> None"
  then have "pending_ok q" using convert_pending_ok [OF assms(1)] by blast
  then have lit: "is_float_literal (freq q)" by (simp add: pending_ok_def)
  from h obtain rs rr u where
    "adif_db (s_db_sent q) = Some rs" "adif_db (tl report_rx) = Some rr" "tz a d = Some u"
    by auto
  with h lit obtain row where
    row: "log_qso a d call report_rx s =
      Inr (s\<lparr>written := written s @ [(outf a, Record row)], ongoing := (ongoing s)(call := None)\<rparr>)"
    using log_qso_logs [of s call q report_rx a d u rs rr] by blast
  let ?s' = "s\<lparr>written := written s @ [(outf a, Record row)], ongoing := (ongoing s)(call := None)\<rparr>"
  have b1: "body a l s = Inr ?s'" using body_rx_line [OF assms(2)] row by simp
  have "log_qso a d call report_rx ?s' = Inr ?s'" by (rule log_qso_idle) simp
  then have b2: "body a l ?s' = Inr ?s'" using body_rx_line [OF assms(2)] by simp
  have "convert a (ls @ [l]) = (None, ?s')"
    using convert_snoc [OF assms(1), of "[l]"] b1 by simp
  moreover have "convert a (ls @ [l, l]) = (None, ?s')"
    using convert_snoc [OF assms(1), of "[l, l]"] b1 b2 by simp
  ultimately show "\<exists>h. convert a (ls @ [l]) =
      (None, s\<lparr>written := written s @ [(outf a, Record h)], ongoing := (ongoing s)(call := None)\<rparr>) \<and>
      convert a (ls @ [l, l]) = convert a (ls @ [l])"
    by auto
next
  assume "ongoing s call = None \<or> \<not> startswith report_rx CHR ''R''"
  then have "body a l s = Inr s"
    using body_rx_line [OF assms(2)] log_qso_idle by simp
  then show "convert a (ls @ [l]) = (None, s)"
    using convert_snoc [OF assms(1), of "[l]"] by simp
qed

lemma receive_line_logs_once_example:
  "convert example_args [example_sel] = (None, snd (convert example_args [example_sel])) \<and>
   rx_line example_rx =
     Some (\<lparr>year = 2019, month = 11, day = 22, hour = 5, minute = 26, second = 29\<rparr>,
           ''JM1LSQ'', ''R+01'') \<and>
   ongoing (snd (convert example_args [example_sel])) ''JM1LSQ'' =
     Some \<lparr>freq = ''21.091'', loc = ''QM05'', s_db_sent = ''-17''\<rparr> \<and>
   startswith ''R+01'' CHR ''R'' \<and> adif_db (tl ''R+01'') = Some ''+01'' \<and>
   adif_db ''-17'' = Some ''-17'' \<and>
   convert example_args ([example_sel] @ [example_rx, example_rx]) =
     convert example_args ([example_sel] @ [example_rx]) \<and>
   convert example_args [] = (None, start example_args) \<and>
   ongoing (start example_args) ''JM1LSQ'' = None \<and>
   convert example_args ([] @ [example_rx]) = (None, start example_args)"
proof -
  let ?s = "snd (convert example_args [example_sel])"
  let ?q = "\<lparr>freq = ''21.091'', loc = ''QM05'', s_db_sent = ''-17''\<rparr>"
  have q: "ongoing ?s ''JM1LSQ'' = Some ?q" using example_sel_run by simp
  have t: "tz example_args \<lparr>year = 2019, month = 11, day = 22, hour = 5, minute = 26, second = 29\<rparr> \<noteq> None"
    by (simp add: example_args_def utc_def)
  have "convert example_args ([example_sel] @ [example_rx, example_rx]) =
      convert example_args ([example_sel] @ [example_rx])"
    using receive_line_logs_once [OF example_sel_state example_rx_line] q t example_reports
    by auto
  moreover have "convert example_args ([] @ [example_rx]) = (None, start example_args)"
    using receive_line_logs_once [OF empty_run(1) example_rx_line] empty_run(2) by blast
  ultimately show ?thesis
    using example_sel_state example_rx_line q example_reports empty_run by simp
qed

text \<open>
  C1.  A receive line whose remote call sign is pending and whose report token starts with
  R is to emit exactly one record and to remove the call sign from the pending table.  The
  code does not do so for the report token RR73: the line is a receive line with eight
  tokens, JM1LSQ is pending and the token starts with R, but \<^verbatim>\<open>int('R73')\<close> raises
  \<open>ValueError\<close>, the conversion ends, no record is written and the call sign is still
  pending.
\<close>

theorem receive_line_rr73_raises:
  "rx_line example_rx_rr73 =
     Some (\<lparr>year = 2019, month = 11, day = 22, hour = 5, minute = 26, second = 29\<rparr>,
           ''JM1LSQ'', ''RR73'') \<and>
   startswith ''RR73'' CHR ''R'' \<and>
   ongoing (snd (convert example_args [example_sel])) ''JM1LSQ'' =
     Some \<lparr>freq = ''21.091'', loc = ''QM05'', s_db_sent = ''-17''\<rparr> \<and>
   convert example_args [example_sel, example_rx_rr73] =
     (Some ValueError, snd (convert example_args [example_sel])) \<and>
   written (snd (convert example_args [example_sel])) = [(Stdout, Header)]"
proof -
  let ?s = "snd (convert example_args [example_sel])"
  let ?d = "\<lparr>year = 2019, month = 11, day = 22, hour = 5, minute = 26, second = 29\<rparr>"
  let ?q = "\<lparr>freq = ''21.091'', loc = ''QM05'', s_db_sent = ''-17''\<rparr>"
  have q: "ongoing ?s ''JM1LSQ'' = Some ?q" using example_sel_run by simp
  have "qso example_args ''JM1LSQ'' ?q (tl ''RR73'') ?d = None"
    using example_reports by (simp add: qso_def)
  then have "log_qso example_args ?d ''JM1LSQ'' ''RR73'' ?s = Inl ValueError"
    using q example_reports by (simp add: log_qso_def example_args_def utc_def)
  then have "body example_args example_rx_rr73 ?s = Inl ValueError"
    using body_rx_line [OF example_rx_rr73_line] by simp
  then have "convert example_args ([example_sel] @ [example_rx_rr73]) = (Some ValueError, ?s)"
    using convert_snoc [OF example_sel_state, of "[example_rx_rr73]"] by simp
  then show ?thesis using example_rx_rr73_line example_reports q example_sel_run by simp
qed

lemma example_run:
  "convert example_args [example_sel, example_rx] =
     (None, (snd (convert example_args [example_sel]))
        \<lparr>written := [(Stdout, Header), (Stdout, Record example_row)],
         ongoing := (ongoing (snd (convert example_args [example_sel])))(''JM1LSQ'' := None)\<rparr>)"
proof -
  let ?s = "snd (convert example_args [example_sel])"
  let ?d = "\<lparr>year = 2019, month = 11, day = 22, hour = 5, minute = 26, second = 29\<rparr>"
  have "log_qso example_args ?d ''JM1LSQ'' ''R+01'' ?s =
      Inr (?s\<lparr>written := [(Stdout, Header), (Stdout, Record example_row)],
              ongoing := (ongoing ?s)(''JM1LSQ'' := None)\<rparr>)"
    using example_sel_run example_reports example_qso
    by (simp add: log_qso_def write_to_def outf_def example_args_def utc_def)
  then show ?thesis
    using convert_snoc [OF example_sel_state, of "[example_rx]"] body_rx_line [OF example_rx_line]
    by simp
qed

lemma example_row_text:
  "adif_row example_row =
     ''<call:6>JM1LSQ <mode:3>FT8 <rst_sent:3>-17 <rst_rcvd:3>+01 <qso_date:8>20191122 <time_on:6>052629 <qso_date_off:8>20191122 <time_off:6>052629 <band:3>15m <freq:6>21.091 <station_callsign:6>N0CALL <gridsquare:4>QM05 <eor>'' @ [CHR 0x0A]"
  by code_simp

subsection \<open>The end-to-end example\<close>

text \<open>
  C2, as amended.  Given exactly the selection line and the receive line of the example,
  with own call sign N0CALL and time zone UTC, exactly one ADIF record is emitted, with
  call = JM1LSQ, rst_sent = -17, rst_rcvd = +01, band = 15m (21.091 MHz is 21091 kHz,
  inside 21000..21450), gridsquare = QM05 and station_callsign = N0CALL.
\<close>

theorem example_end_to_end:
  "fst (convert example_args [example_sel, example_rx]) = None \<and>
   written (snd (convert example_args [example_sel, example_rx])) =
     [(Stdout, Header), (Stdout, Record example_row)] \<and>
   map_of example_row ''call'' = Some (Some ''JM1LSQ'') \<and>
   map_of example_row ''rst_sent'' = Some (Some ''-17'') \<and>
   map_of example_row ''rst_rcvd'' = Some (Some ''+01'') \<and>
   map_of example_row ''band'' = Some (Some ''15m'') \<and>
   map_of example_row ''gridsquare'' = Some (Some ''QM05'') \<and>
   map_of example_row ''station_callsign'' = Some (Some ''N0CALL'') \<and>
   stream_text Stdout (snd (convert example_args [example_sel, example_rx])) =
     ''wsjtx fox ADIF Export<eoh>'' @ [CHR 0x0A] @
     ''<call:6>JM1LSQ <mode:3>FT8 <rst_sent:3>-17 <rst_rcvd:3>+01 <qso_date:8>20191122 <time_on:6>052629 <qso_date_off:8>20191122 <time_off:6>052629 <band:3>15m <freq:6>21.091 <station_callsign:6>N0CALL <gridsquare:4>QM05 <eor>'' @ [CHR 0x0A]"
  using example_run example_row_text
  by (simp add: stream_text_def text_of_def newline_def) (simp add: example_row_def)

theorem example_band_counterexample:
  "written (snd (convert example_args [example_sel, example_rx])) =
     [(Stdout, Header), (Stdout, Record example_row)] \<and>
   map_of example_row ''band'' = Some (Some ''15m'') \<and>
   \<not> (\<exists>h. (Stdout, Record h) \<in> set (written (snd (convert example_args [example_sel, example_rx]))) \<and>
         map_of h ''band'' = Some (Some ''20m''))"
  using example_run by (simp add: example_row_def)


lemma body_unpack_error:
  assumes "parsed l = Some (g, d)"
  shows "s_linetype g = ''Sel:'' \<Longrightarrow> length (split (s_string g)) \<noteq> 3 \<Longrightarrow>
           body a l s = Inl ValueError"
    and "s_linetype g = ''Rx:'' \<Longrightarrow> 8 < length (split (s_string g)) \<Longrightarrow>
           body a l s = Inl ValueError"
  using assms
  by (auto simp: parsed_def body_def on_sel_def on_rx_def Let_def bind_eq_Some_conv)

lemma example_malformed:
  "map_option (\<lambda>(g, d). (s_linetype g, length (split (s_string g)))) (parsed example_sel_short) =
     Some (''Sel:'', 2) \<and>
   map_option (\<lambda>(g, d). (s_linetype g, length (split (s_string g)))) (parsed example_rx_long) =
     Some (''Rx:'', 9) \<and>
   short_rx_line example_rx_short"
  by code_simp

subsection \<open>Malformed payloads\<close>

text \<open>
  C3.  What the code does on payloads that fail the shape of their tag: a selection line
  with two tokens and a receive line with nine tokens each raise \<open>ValueError\<close> and end the
  conversion with the header as the only output, the lines after them unread; only a
  receive line with fewer than eight tokens is reported and skipped.
\<close>

theorem malformed_payload_aborts:
  "convert example_args [example_sel_short, example_sel, example_rx] =
     (Some ValueError, start example_args) \<and>
   convert example_args [example_rx_long, example_sel, example_rx] =
     (Some ValueError, start example_args) \<and>
   written (start example_args) = [(Stdout, Header)] \<and>
   convert example_args [example_rx_short] =
     (None, print (Diagnostic example_rx_short) (start example_args))"
proof -
  obtain g d where p: "parsed example_sel_short = Some (g, d)"
    and g: "s_linetype g = ''Sel:''" "length (split (s_string g)) = 2"
    using example_malformed by (cases "parsed example_sel_short") auto
  obtain g' d' where p': "parsed example_rx_long = Some (g', d')"
    and g': "s_linetype g' = ''Rx:''" "length (split (s_string g')) = 9"
    using example_malformed by (cases "parsed example_rx_long") auto
  have "body example_args example_sel_short (start example_args) = Inl ValueError"
    using body_unpack_error(1) [OF p] g by simp
  moreover have "body example_args example_rx_long (start example_args) = Inl ValueError"
    using body_unpack_error(2) [OF p'] g' by simp
  moreover have "body example_args example_rx_short (start example_args) =
      Inr (print (Diagnostic example_rx_short) (start example_args))"
    using body_short_rx_line example_malformed by blast
  ultimately show ?thesis by (simp add: convert_def empty_run outf_def example_args_def)
qed

subsection \<open>The diagnostic channel\<close>





subsection \<open>The header\<close>




subsection \<open>Selecting a station again\<close>

lemma log_qso_agree:
  assumes "written s = written t" and "\<forall>c'. c' \<noteq> X \<longrightarrow> ongoing s c' = ongoing t c'"
    and "c \<noteq> X \<or> \<not> startswith rep CHR ''R''"
  shows "(\<exists>e. log_qso a d c rep s = Inl e \<and> log_qso a d c rep t = Inl e) \<or>
     (\<exists>s' t'. log_qso a d c rep s = Inr s' \<and> log_qso a d c rep t = Inr t' \<and>
        written s' = written t' \<and> (\<forall>c'. c' \<noteq> X \<longrightarrow> ongoing s' c' = ongoing t' c'))"
proof (cases "startswith rep CHR ''R''")
  case False
  then have "log_qso a d c rep s = Inr s" "log_qso a d c rep t = Inr t"
    by (simp_all add: log_qso_idle)
  with assms show ?thesis by simp
next
  case True
  with assms(3) have "c \<noteq> X" by simp
  with assms(2) have "ongoing s c = ongoing t c" by simp
  with assms(1,2) show ?thesis
    by (auto simp: log_qso_def write_to_def split: option.splits)
qed

lemma body_agree:
  assumes "\<not> completes X l" and "written s = written t"
    and "\<forall>c'. c' \<noteq> X \<longrightarrow> ongoing s c' = ongoing t c'"
  shows "(\<exists>e. body a l s = Inl e \<and> body a l t = Inl e) \<or>
     (\<exists>s' t'. body a l s = Inr s' \<and> body a l t = Inr t' \<and>
        written s' = written t' \<and> (\<forall>c'. c' \<noteq> X \<longrightarrow> ongoing s' c' = ongoing t' c'))"
proof (cases "rx_line l")
  case (Some r)
  obtain d c rep where r: "r = (d, c, rep)" by (cases r)
  with Some assms(1) have "c \<noteq> X \<or> \<not> startswith rep CHR ''R''"
    by (auto simp: completes_def)
  from log_qso_agree [OF assms(2,3) this] show ?thesis
    using body_rx_line [of l d c rep] Some r by simp
next
  case None
  show ?thesis
  proof (cases "re_line l")
    case n: None
    with assms show ?thesis by (simp add: body_def)
  next
    case (Some g)
    show ?thesis
    proof (cases "strptime (s_date g @ '' '' @ s_time g)")
      case n: None
      with Some show ?thesis by (simp add: body_def)
    next
      case d: (Some d)
      have "\<not> (s_linetype g = ''Rx:'' \<and> length (split (s_string g)) = 8)"
        using None Some d by (auto simp: rx_line_def parsed_def Let_def)
      with Some d assms(2,3) show ?thesis
        by (auto simp: body_def on_sel_def on_rx_def print_def write_to_def Let_def)
    qed
  qed
qed

lemma loop_agree:
  assumes "list_all (\<lambda>m. \<not> completes X m) ls" and "written s = written t"
    and "\<forall>c'. c' \<noteq> X \<longrightarrow> ongoing s c' = ongoing t c'"
  shows "fst (loop a ls s) = fst (loop a ls t) \<and>
     written (snd (loop a ls s)) = written (snd (loop a ls t)) \<and>
     (\<forall>c'. c' \<noteq> X \<longrightarrow> ongoing (snd (loop a ls s)) c' = ongoing (snd (loop a ls t)) c')"
  using assms
proof (induction ls arbitrary: s t)
  case Nil
  then show ?case by simp
next
  case (Cons l ls)
  from Cons.prems(1) have l: "\<not> completes X l" and ls: "list_all (\<lambda>m. \<not> completes X m) ls"
    by simp_all
  from body_agree [OF l Cons.prems(2,3), of a] show ?case
  proof (elim disjE exE conjE)
    fix e
    assume "body a l s = Inl e" "body a l t = Inl e"
    with Cons.prems show ?thesis by simp
  next
    fix s' t'
    assume b: "body a l s = Inr s'" "body a l t = Inr t'" and w: "written s' = written t'"
      and o: "\<forall>c'. c' \<noteq> X \<longrightarrow> ongoing s' c' = ongoing t' c'"
    from Cons.IH [OF ls w o] b show ?thesis by simp
  qed
qed

lemma state_eqI:
  "written s = written t \<Longrightarrow> ongoing s = ongoing t \<Longrightarrow> (s :: state) = t"
  by simp

text \<open>
  C5.  When a selection line for a call sign is processed and then, before any receive
  line that completes the contact, a second selection line for the same call sign, the
  pending table afterwards holds for that call sign the entry of the second selection
  (its frequency, locator and sent report), and the whole run, with everything emitted
  later, is the run without the first selection.  A record emitted later for the call
  sign, before the station is selected once more, carries the sent report, the frequency,
  the band and the locator of the second selection.
\<close>

theorem reselection_discards_first:
  assumes "sel_line l1 = Some (X, q1)" and "sel_line l2 = Some (X, q2)"
    and "list_all (\<lambda>m. \<not> completes X m) mid"
    and "loop a (l1 # mid) s = (None, s1)"
  shows "loop a (l1 # mid @ [l2]) s = (None, s1\<lparr>ongoing := (ongoing s1)(X \<mapsto> q2)\<rparr>) \<and>
         ongoing (snd (loop a (l1 # mid @ [l2]) s)) X = Some q2 \<and>
         loop a (l1 # mid @ l2 # rest) s = loop a (mid @ l2 # rest) s \<and>
         (\<forall>later l3 d report_rx s3.
            list_all (\<lambda>m. \<not> completes X m \<and> map_option fst (sel_line m) \<noteq> Some X) later \<and>
            rx_line l3 = Some (d, X, report_rx) \<and> startswith report_rx CHR ''R'' \<and>
            loop a (l1 # mid @ l2 # later) s = (None, s3) \<longrightarrow>
            (adif_db (tl report_rx) \<noteq> None \<and> adif_db (s_db_sent q2) \<noteq> None \<and> tz a d \<noteq> None \<longrightarrow>
               fst (loop a (l1 # mid @ l2 # later @ [l3]) s) = None) \<and>
            (\<forall>s4. loop a (l1 # mid @ l2 # later @ [l3]) s = (None, s4) \<longrightarrow>
               (\<exists>h f. written s4 = written s3 @ [(outf a, Record h)] \<and>
                  map_of h ''call'' = Some (Some X) \<and>
                  map_of h ''rst_sent'' = Some (adif_db (s_db_sent q2)) \<and>
                  py_float (freq q2) = Some f \<and>
                  map_of h ''freq'' = Some (Some (fmt_3f f)) \<and>
                  map_of h ''band'' = Some (freq_to_band_float (float_mul f 1000)) \<and>
                  map_of h ''gridsquare'' =
                    (if is_grid4 (loc q2) then Some (Some (loc q2)) else None))))"
proof -
  let ?s0 = "s\<lparr>ongoing := (ongoing s)(X \<mapsto> q1)\<rparr>"
  let ?s2 = "s1\<lparr>ongoing := (ongoing s1)(X \<mapsto> q2)\<rparr>"
  have b1: "body a l1 s = Inr ?s0" by (rule body_sel_line [OF assms(1)])
  with assms(4) have m: "loop a mid ?s0 = (None, s1)" by simp
  obtain e t1 where t: "loop a mid s = (e, t1)" by (cases "loop a mid s")
  have "fst (loop a mid ?s0) = fst (loop a mid s) \<and>
      written (snd (loop a mid ?s0)) = written (snd (loop a mid s)) \<and>
      (\<forall>c'. c' \<noteq> X \<longrightarrow> ongoing (snd (loop a mid ?s0)) c' = ongoing (snd (loop a mid s)) c')"
    by (rule loop_agree [OF assms(3)]) simp_all
  with m t have e: "e = None" and w: "written s1 = written t1"
    and o: "\<forall>c'. c' \<noteq> X \<longrightarrow> ongoing s1 c' = ongoing t1 c'"
    by simp_all
  have "(ongoing s1)(X \<mapsto> q2) = (ongoing t1)(X \<mapsto> q2)" using o by (auto simp: fun_eq_iff)
  then have eq: "?s2 = t1\<lparr>ongoing := (ongoing t1)(X \<mapsto> q2)\<rparr>"
    using w by (intro state_eqI) simp_all
  have b2: "\<And>u. body a l2 u = Inr (u\<lparr>ongoing := (ongoing u)(X \<mapsto> q2)\<rparr>)"
    by (rule body_sel_line [OF assms(2)])
  have r1: "loop a (l1 # mid @ [l2]) s = (None, ?s2)"
    using b1 m b2 by (simp add: loop_append)
  have "loop a (l1 # mid @ l2 # rest) s = loop a rest ?s2"
    using b1 m b2 by (simp add: loop_append)
  moreover have "loop a (mid @ l2 # rest) s = loop a rest (t1\<lparr>ongoing := (ongoing t1)(X \<mapsto> q2)\<rparr>)"
    using t e b2 by (simp add: loop_append)
  ultimately have r3: "loop a (l1 # mid @ l2 # rest) s = loop a (mid @ l2 # rest) s"
    using eq by simp
  have ok: "pending_ok q2" by (rule sel_line_pending_ok [OF assms(2)])
  have later: "(adif_db (tl report_rx) \<noteq> None \<and> adif_db (s_db_sent q2) \<noteq> None \<and> tz a d \<noteq> None \<longrightarrow>
               fst (loop a (l1 # mid @ l2 # later @ [l3]) s) = None) \<and>
            (\<forall>s4. loop a (l1 # mid @ l2 # later @ [l3]) s = (None, s4) \<longrightarrow>
               (\<exists>h f. written s4 = written s3 @ [(outf a, Record h)] \<and>
                  map_of h ''call'' = Some (Some X) \<and>
                  map_of h ''rst_sent'' = Some (adif_db (s_db_sent q2)) \<and>
                  py_float (freq q2) = Some f \<and>
                  map_of h ''freq'' = Some (Some (fmt_3f f)) \<and>
                  map_of h ''band'' = Some (freq_to_band_float (float_mul f 1000)) \<and>
                  map_of h ''gridsquare'' =
                    (if is_grid4 (loc q2) then Some (Some (loc q2)) else None)))"
    if h: "list_all (\<lambda>m. \<not> completes X m \<and> map_option fst (sel_line m) \<noteq> Some X) later"
      "rx_line l3 = Some (d, X, report_rx)" "startswith report_rx CHR ''R''"
      "loop a (l1 # mid @ l2 # later) s = (None, s3)"
    for later l3 d report_rx s3
  proof -
    have "l1 # mid @ l2 # later = (l1 # mid @ [l2]) @ later" by simp
    with h(4) r1 have "loop a later ?s2 = (None, s3)" by (simp only: loop_append) simp
    from loop_keeps_entry [OF h(1) this] have q: "ongoing s3 X = Some q2" by simp
    have "l1 # mid @ l2 # later @ [l3] = (l1 # mid @ l2 # later) @ [l3]" by simp
    then have l: "loop a (l1 # mid @ l2 # later @ [l3]) s = loop a [l3] s3"
      using h(4) by (simp only: loop_append) simp
    have b: "body a l3 s3 = log_qso a d X report_rx s3" by (rule body_rx_line [OF h(2)])
    show ?thesis
    proof (intro conjI impI allI)
      assume "adif_db (tl report_rx) \<noteq> None \<and> adif_db (s_db_sent q2) \<noteq> None \<and> tz a d \<noteq> None"
      then obtain rs rr u where "adif_db (s_db_sent q2) = Some rs"
        "adif_db (tl report_rx) = Some rr" "tz a d = Some u"
        by auto
      from log_qso_logs [OF q h(3) this(3) this(1) this(2)] ok
      show "fst (loop a (l1 # mid @ l2 # later @ [l3]) s) = None"
        using l b by (auto simp: pending_ok_def)
    next
      fix s4
      assume "loop a (l1 # mid @ l2 # later @ [l3]) s = (None, s4)"
      with l b have "log_qso a d X report_rx s3 = Inr s4" by (simp split: sum.splits)
      from log_qso_emits [OF this q h(3)] obtain u row where
        row: "qso a X q2 (tl report_rx) u = Some row" and
        s4: "s4 = s3\<lparr>written := written s3 @ [(outf a, Record row)],
                     ongoing := (ongoing s3)(X := None)\<rparr>"
        by blast
      have "re_loc (loc q2) = is_grid4 (loc q2)"
        using ok by (simp add: pending_ok_def re_loc_token)
      with qso_pending_fields [OF row] s4
      show "\<exists>h f. written s4 = written s3 @ [(outf a, Record h)] \<and>
                  map_of h ''call'' = Some (Some X) \<and>
                  map_of h ''rst_sent'' = Some (adif_db (s_db_sent q2)) \<and>
                  py_float (freq q2) = Some f \<and>
                  map_of h ''freq'' = Some (Some (fmt_3f f)) \<and>
                  map_of h ''band'' = Some (freq_to_band_float (float_mul f 1000)) \<and>
                  map_of h ''gridsquare'' =
                    (if is_grid4 (loc q2) then Some (Some (loc q2)) else None)"
        by auto
    qed
  qed
  have r2: "ongoing (snd (loop a (l1 # mid @ [l2]) s)) X = Some q2"
    by (subst r1) simp
  from r1 r2 r3 later show ?thesis by blast
qed

lemma example_reselection:
  "sel_line example_sel_other =
     Some (''JM1LSQ'', \<lparr>freq = ''14.074'', loc = ''PM95'', s_db_sent = ''-05''\<rparr>) \<and>
   sel_line example_sel =
     Some (''JM1LSQ'', \<lparr>freq = ''21.091'', loc = ''QM05'', s_db_sent = ''-17''\<rparr>) \<and>
   list_all (\<lambda>m. \<not> completes ''JM1LSQ'' m) [example_rx_short] \<and>
   fst (loop example_args [example_sel_other, example_rx_short] (start example_args)) = None \<and>
   written (snd (loop example_args [example_rx_short, example_sel, example_rx]
      (start example_args))) =
     [(Stdout, Header), (Stdout, Diagnostic example_rx_short), (Stdout, Record example_row)]"
  by code_simp

lemma example_frequency:
  "py_float ''21.091'' = Some (Fin (2968294366902223 / 140737488355328)) \<and>
   fmt_3f (Fin (2968294366902223 / 140737488355328)) = ''21.091'' \<and>
   freq_to_band_float (float_mul (Fin (2968294366902223 / 140737488355328)) 1000) =
     Some ''15m'' \<and>
   is_grid4 ''QM05'' \<and>
   fst (loop example_args [example_rx_short, example_sel, example_rx] (start example_args)) =
     None"
  by code_simp

theorem reselection_discards_first_witness:
  "sel_line example_sel_other =
     Some (''JM1LSQ'', \<lparr>freq = ''14.074'', loc = ''PM95'', s_db_sent = ''-05''\<rparr>) \<and>
   sel_line example_sel =
     Some (''JM1LSQ'', \<lparr>freq = ''21.091'', loc = ''QM05'', s_db_sent = ''-17''\<rparr>) \<and>
   list_all (\<lambda>m. \<not> completes ''JM1LSQ'' m) [example_rx_short] \<and>
   fst (loop example_args [example_sel_other, example_rx_short] (start example_args)) = None \<and>
   ongoing (snd (loop example_args [example_sel_other, example_rx_short, example_sel]
      (start example_args))) ''JM1LSQ'' =
     Some \<lparr>freq = ''21.091'', loc = ''QM05'', s_db_sent = ''-17''\<rparr> \<and>
   written (snd (loop example_args [example_sel_other, example_rx_short, example_sel, example_rx]
      (start example_args))) =
     [(Stdout, Header), (Stdout, Diagnostic example_rx_short), (Stdout, Record example_row)] \<and>
   rx_line example_rx =
     Some (\<lparr>year = 2019, month = 11, day = 22, hour = 5, minute = 26, second = 29\<rparr>,
           ''JM1LSQ'', ''R+01'') \<and>
   startswith ''R+01'' CHR ''R'' \<and>
   fst (loop example_args [example_sel_other, example_rx_short, example_sel, example_rx]
      (start example_args)) = None \<and>
   (\<exists>h. written (snd (loop example_args
            [example_sel_other, example_rx_short, example_sel, example_rx]
            (start example_args))) =
          written (snd (loop example_args [example_sel_other, example_rx_short, example_sel]
            (start example_args))) @ [(Stdout, Record h)] \<and>
        map_of h ''call'' = Some (Some ''JM1LSQ'') \<and>
        map_of h ''rst_sent'' = Some (Some ''-17'') \<and>
        map_of h ''freq'' = Some (Some ''21.091'') \<and>
        map_of h ''band'' = Some (Some ''15m'') \<and>
        map_of h ''gridsquare'' = Some (Some ''QM05''))"
proof -
  let ?l = "loop example_args [example_sel_other, example_rx_short] (start example_args)"
  let ?q = "\<lparr>freq = ''21.091'', loc = ''QM05'', s_db_sent = ''-17''\<rparr>"
  let ?s3 = "(snd ?l)\<lparr>ongoing := (ongoing (snd ?l))(''JM1LSQ'' \<mapsto> ?q)\<rparr>"
  let ?full = "loop example_args [example_sel_other, example_rx_short, example_sel, example_rx]
    (start example_args)"
  have r: "loop example_args (example_sel_other # [example_rx_short]) (start example_args) =
      (None, snd ?l)"
    using example_reselection by (simp add: prod_eq_iff)
  have s1: "sel_line example_sel_other =
     Some (''JM1LSQ'', \<lparr>freq = ''14.074'', loc = ''PM95'', s_db_sent = ''-05''\<rparr>)"
    and s2: "sel_line example_sel = Some (''JM1LSQ'', ?q)"
    and m: "list_all (\<lambda>m. \<not> completes ''JM1LSQ'' m) [example_rx_short]"
    using example_reselection by simp_all
  note inst = reselection_discards_first [OF s1 s2 m r, of "[example_rx]"]
  from inst have p3: "loop example_args [example_sel_other, example_rx_short, example_sel]
      (start example_args) = (None, ?s3)"
    by simp
  from inst have e: "?full =
      loop example_args [example_rx_short, example_sel, example_rx] (start example_args)"
    by simp
  with example_frequency have f: "fst ?full = None" by simp
  then have p4: "?full = (None, snd ?full)" by (simp add: prod_eq_iff)
  have rx: "startswith ''R+01'' CHR ''R''" using example_reports by simp
  from inst have "\<forall>later l3 d report_rx s3.
      list_all (\<lambda>m. \<not> completes ''JM1LSQ'' m \<and> map_option fst (sel_line m) \<noteq> Some ''JM1LSQ'') later \<and>
      rx_line l3 = Some (d, ''JM1LSQ'', report_rx) \<and> startswith report_rx CHR ''R'' \<and>
      loop example_args (example_sel_other # [example_rx_short] @ example_sel # later)
        (start example_args) = (None, s3) \<longrightarrow>
      (\<forall>s4. loop example_args (example_sel_other # [example_rx_short] @ example_sel # later @ [l3])
          (start example_args) = (None, s4) \<longrightarrow>
        (\<exists>h f. written s4 = written s3 @ [(outf example_args, Record h)] \<and>
           map_of h ''call'' = Some (Some ''JM1LSQ'') \<and>
           map_of h ''rst_sent'' = Some (adif_db (s_db_sent ?q)) \<and>
           py_float (freq ?q) = Some f \<and>
           map_of h ''freq'' = Some (Some (fmt_3f f)) \<and>
           map_of h ''band'' = Some (freq_to_band_float (float_mul f 1000)) \<and>
           map_of h ''gridsquare'' = (if is_grid4 (loc ?q) then Some (Some (loc ?q)) else None)))"
    by blast
  from this [rule_format, of "[]" example_rx _ "''R+01''" ?s3 "snd ?full"]
    example_rx_line rx p3 p4
  obtain h f where h: "written (snd ?full) = written ?s3 @ [(outf example_args, Record h)]"
    "map_of h ''call'' = Some (Some ''JM1LSQ'')"
    "map_of h ''rst_sent'' = Some (adif_db ''-17'')"
    "py_float ''21.091'' = Some f"
    "map_of h ''freq'' = Some (Some (fmt_3f f))"
    "map_of h ''band'' = Some (freq_to_band_float (float_mul f 1000))"
    "map_of h ''gridsquare'' = (if is_grid4 ''QM05'' then Some (Some ''QM05'') else None)"
    by auto
  have o: "outf example_args = Stdout" by (simp add: outf_def example_args_def)
  from h example_frequency example_reports o p3 have
    "written (snd ?full) =
       written (snd (loop example_args [example_sel_other, example_rx_short, example_sel]
         (start example_args))) @ [(Stdout, Record h)] \<and>
     map_of h ''call'' = Some (Some ''JM1LSQ'') \<and>
     map_of h ''rst_sent'' = Some (Some ''-17'') \<and>
     map_of h ''freq'' = Some (Some ''21.091'') \<and>
     map_of h ''band'' = Some (Some ''15m'') \<and>
     map_of h ''gridsquare'' = Some (Some ''QM05'')"
    by auto
  then have ex: "\<exists>h. written (snd ?full) =
       written (snd (loop example_args [example_sel_other, example_rx_short, example_sel]
         (start example_args))) @ [(Stdout, Record h)] \<and>
     map_of h ''call'' = Some (Some ''JM1LSQ'') \<and>
     map_of h ''rst_sent'' = Some (Some ''-17'') \<and>
     map_of h ''freq'' = Some (Some ''21.091'') \<and>
     map_of h ''band'' = Some (Some ''15m'') \<and>
     map_of h ''gridsquare'' = Some (Some ''QM05'')"
    by blast
  show ?thesis
    using s1 s2 m example_reselection p3 e example_rx_line rx f ex by simp
qed

subsection \<open>Optional fields\<close>

lemma band_loop_outside:
  "list_all (\<lambda>(b, lo, hi). f < lo \<or> hi < f) bs \<Longrightarrow> band_loop bs f = None"
  by (induction bs f rule: band_loop.induct) auto

lemma qso_fields:
  assumes "qso a call q s_db_rx u = Some h"
  shows "map_of h ''gridsquare'' = (if re_loc (loc q) then Some (Some (loc q)) else None)"
    and "\<exists>f. py_float (freq q) = Some f \<and> h ! 8 = (''band'', freq_to_band_float (float_mul f 1000)) \<and>
           map_of h ''band'' = Some (freq_to_band_float (float_mul f 1000))"
  using assms
  by (auto simp: qso_def bind_eq_Some_conv split: option.splits if_splits)

text \<open>
  C6.  In every emitted record the gridsquare field is present if and only if the stored
  locator token of the pending entry is exactly two uppercase letters followed by two
  digits; when it is present its value is that token, and otherwise the record has no
  such field.
\<close>

theorem gridsquare_iff_locator_pattern:
  assumes "convert a ls = (None, s)" and "ongoing s call = Some q"
    and "rx_line l = Some (d, call, report_rx)" and "startswith report_rx CHR ''R''"
    and "convert a (ls @ [l]) = (None, s')"
  shows "\<exists>h. written s' = written s @ [(outf a, Record h)] \<and>
     (''gridsquare'' \<in> fst ` set h) = is_grid4 (loc q) \<and>
     map_of h ''gridsquare'' = (if is_grid4 (loc q) then Some (Some (loc q)) else None)"
proof -
  have "body a l s = Inr s'"
    using convert_snoc [OF assms(1), of "[l]"] assms(5) by (simp split: sum.splits)
  then have "log_qso a d call report_rx s = Inr s'" using body_rx_line [OF assms(3)] by simp
  from log_qso_emits [OF this assms(2,4)] obtain u h where
    h: "qso a call q (tl report_rx) u = Some h" and
    s': "s' = s\<lparr>written := written s @ [(outf a, Record h)], ongoing := (ongoing s)(call := None)\<rparr>"
    by blast
  have "pending_ok q" using convert_pending_ok [OF assms(1,2)] .
  then have "re_loc (loc q) = is_grid4 (loc q)" by (simp add: pending_ok_def re_loc_token)
  with qso_fields(1) [OF h] have
    m: "map_of h ''gridsquare'' = (if is_grid4 (loc q) then Some (Some (loc q)) else None)"
    by simp
  then have "(''gridsquare'' \<in> fst ` set h) = is_grid4 (loc q)"
    using map_of_eq_None_iff [of h "''gridsquare''"] by (cases "is_grid4 (loc q)") auto
  with m s' show ?thesis by simp
qed

lemma example_offband:
  "fst (convert example_args [example_sel_offband]) = None \<and>
   ongoing (snd (convert example_args [example_sel_offband])) ''JM1LSQ'' =
     Some \<lparr>freq = ''22.000'', loc = ''none'', s_db_sent = ''-17''\<rparr> \<and>
   written (snd (convert example_args [example_sel_offband])) = [(Stdout, Header)] \<and>
   fst (convert example_args [example_sel_offband, example_rx]) = None \<and>
   is_grid4 ''QM05'' \<and> \<not> is_grid4 ''none'' \<and>
   py_float ''22.000'' = Some (Fin 22) \<and> float_mul (Fin 22) 1000 = Fin 22000 \<and>
   list_all (\<lambda>(b, lo, hi). (22000 :: rat) < lo \<or> hi < 22000) BAND_FREQ \<and>
   written (snd (convert example_args [example_sel_offband, example_rx])) =
     [(Stdout, Header),
      (Stdout, Record
        [(''call'', Some ''JM1LSQ''), (''mode'', Some ''FT8''), (''rst_sent'', Some ''-17''),
         (''rst_rcvd'', Some ''+01''), (''qso_date'', Some ''20191122''),
         (''time_on'', Some ''052629''), (''qso_date_off'', Some ''20191122''),
         (''time_off'', Some ''052629''), (''band'', None), (''freq'', Some ''22.000''),
         (''station_callsign'', Some ''N0CALL'')])] \<and>
   stream_text Stdout (snd (convert example_args [example_sel_offband, example_rx])) =
     ''wsjtx fox ADIF Export<eoh>'' @ [CHR 0x0A] @
     ''<call:6>JM1LSQ <mode:3>FT8 <rst_sent:3>-17 <rst_rcvd:3>+01 <qso_date:8>20191122 <time_on:6>052629 <qso_date_off:8>20191122 <time_off:6>052629  <freq:6>22.000 <station_callsign:6>N0CALL <eor>'' @ [CHR 0x0A]"
  by code_simp

theorem gridsquare_iff_locator_pattern_witness:
  "convert example_args [example_sel] = (None, snd (convert example_args [example_sel])) \<and>
   ongoing (snd (convert example_args [example_sel])) ''JM1LSQ'' =
     Some \<lparr>freq = ''21.091'', loc = ''QM05'', s_db_sent = ''-17''\<rparr> \<and>
   rx_line example_rx =
     Some (\<lparr>year = 2019, month = 11, day = 22, hour = 5, minute = 26, second = 29\<rparr>,
           ''JM1LSQ'', ''R+01'') \<and>
   startswith ''R+01'' CHR ''R'' \<and>
   fst (convert example_args ([example_sel] @ [example_rx])) = None \<and>
   is_grid4 ''QM05'' \<and>
   (\<exists>h. written (snd (convert example_args ([example_sel] @ [example_rx]))) =
          written (snd (convert example_args [example_sel])) @ [(Stdout, Record h)] \<and>
        map_of h ''gridsquare'' = Some (Some ''QM05'')) \<and>
   ongoing (snd (convert example_args [example_sel_offband])) ''JM1LSQ'' =
     Some \<lparr>freq = ''22.000'', loc = ''none'', s_db_sent = ''-17''\<rparr> \<and>
   fst (convert example_args ([example_sel_offband] @ [example_rx])) = None \<and>
   \<not> is_grid4 ''none'' \<and>
   (\<exists>h. written (snd (convert example_args ([example_sel_offband] @ [example_rx]))) =
          written (snd (convert example_args [example_sel_offband])) @ [(Stdout, Record h)] \<and>
        map_of h ''gridsquare'' = None)"
proof -
  let ?s = "snd (convert example_args [example_sel])"
  let ?t = "snd (convert example_args [example_sel_offband])"
  have o: "outf example_args = Stdout" by (simp add: outf_def example_args_def)
  have q: "ongoing ?s ''JM1LSQ'' = Some \<lparr>freq = ''21.091'', loc = ''QM05'', s_db_sent = ''-17''\<rparr>"
    using example_sel_run by simp
  have r: "startswith ''R+01'' CHR ''R''" using example_reports by simp
  have c: "convert example_args ([example_sel] @ [example_rx]) =
      (None, snd (convert example_args ([example_sel] @ [example_rx])))"
    using example_run by simp
  have 1: "\<exists>h. written (snd (convert example_args ([example_sel] @ [example_rx]))) =
          written ?s @ [(Stdout, Record h)] \<and> map_of h ''gridsquare'' = Some (Some ''QM05'')"
    using gridsquare_iff_locator_pattern [OF example_sel_state q example_rx_line r c]
      example_offband o by auto
  have t: "convert example_args [example_sel_offband] = (None, ?t)"
    using example_offband by (simp add: prod_eq_iff)
  have q': "ongoing ?t ''JM1LSQ'' = Some \<lparr>freq = ''22.000'', loc = ''none'', s_db_sent = ''-17''\<rparr>"
    using example_offband by simp
  have c': "convert example_args ([example_sel_offband] @ [example_rx]) =
      (None, snd (convert example_args ([example_sel_offband] @ [example_rx])))"
    using example_offband by (simp add: prod_eq_iff)
  have 2: "\<exists>h. written (snd (convert example_args ([example_sel_offband] @ [example_rx]))) =
          written ?t @ [(Stdout, Record h)] \<and> map_of h ''gridsquare'' = None"
    using gridsquare_iff_locator_pattern [OF t q' example_rx_line r c'] example_offband o
    by auto
  have f: "fst (convert example_args ([example_sel] @ [example_rx])) = None"
    "fst (convert example_args ([example_sel_offband] @ [example_rx])) = None"
    using example_run example_offband by simp_all
  show ?thesis
    using example_sel_state q example_rx_line r f 1 q' 2 example_offband by simp
qed

text \<open>
  C10.  For every key, a field whose value is \<open>None\<close> is encoded as the empty string, so
  the row has no tag for it.  In particular, when the frequency of a finished contact is
  outside every declared band range, the record is emitted all the same, and its band
  entry is \<open>None\<close> and is rendered as the empty string.
\<close>

theorem none_field_omitted:
  assumes "convert a ls = (None, s)" and "ongoing s call = Some q"
    and "rx_line l = Some (d, call, report_rx)" and "startswith report_rx CHR ''R''"
    and "adif_db (tl report_rx) \<noteq> None" and "adif_db (s_db_sent q) \<noteq> None"
    and "tz a d \<noteq> None"
    and "py_float (freq q) = Some f"
    and "\<forall>khz. float_mul f 1000 = Fin khz \<longrightarrow>
           list_all (\<lambda>(b, lo, hi). khz < lo \<or> hi < khz) BAND_FREQ"
  shows "adif_field k None = [] \<and>
     (\<exists>h. convert a (ls @ [l]) =
            (None, s\<lparr>written := written s @ [(outf a, Record h)],
                     ongoing := (ongoing s)(call := None)\<rparr>) \<and>
          h ! 8 = (''band'', None) \<and> map_of h ''band'' = Some None \<and>
          map (\<lambda>(k, v). adif_field k v) h ! 8 = [])"
proof -
  have lit: "is_float_literal (freq q)"
    using convert_pending_ok [OF assms(1,2)] by (simp add: pending_ok_def)
  from assms(5,6,7) obtain rs rr u where
    p: "adif_db (s_db_sent q) = Some rs" "adif_db (tl report_rx) = Some rr" "tz a d = Some u"
    by auto
  from log_qso_logs [OF assms(2,4) p(3) p(1) p(2) lit] obtain h where
    h: "qso a call q (tl report_rx) u = Some h" and
    l: "log_qso a d call report_rx s =
      Inr (s\<lparr>written := written s @ [(outf a, Record h)], ongoing := (ongoing s)(call := None)\<rparr>)"
    by blast
  have c: "convert a (ls @ [l]) =
      (None, s\<lparr>written := written s @ [(outf a, Record h)], ongoing := (ongoing s)(call := None)\<rparr>)"
    using convert_snoc [OF assms(1), of "[l]"] body_rx_line [OF assms(3)] l by simp
  have b: "freq_to_band_float (float_mul f 1000) = None"
    using assms(9) band_loop_outside
    by (auto simp: freq_to_band_float_def freq_to_band_def split: pyfloat.splits)
  from qso_fields(2) [OF h] assms(8) b have
    8: "h ! 8 = (''band'', None)" "map_of h ''band'' = Some None" by simp_all
  have "8 < length h" using h
    by (auto simp: qso_def bind_eq_Some_conv)
  with 8 have "map (\<lambda>(k, v). adif_field k v) h ! 8 = []" by (simp add: adif_field_def)
  with c 8 show ?thesis by (auto simp: adif_field_def)
qed

theorem none_field_omitted_witness:
  "convert example_args [example_sel_offband] =
     (None, snd (convert example_args [example_sel_offband])) \<and>
   ongoing (snd (convert example_args [example_sel_offband])) ''JM1LSQ'' =
     Some \<lparr>freq = ''22.000'', loc = ''none'', s_db_sent = ''-17''\<rparr> \<and>
   rx_line example_rx =
     Some (\<lparr>year = 2019, month = 11, day = 22, hour = 5, minute = 26, second = 29\<rparr>,
           ''JM1LSQ'', ''R+01'') \<and>
   startswith ''R+01'' CHR ''R'' \<and> adif_db (tl ''R+01'') = Some ''+01'' \<and>
   adif_db ''-17'' = Some ''-17'' \<and>
   py_float ''22.000'' = Some (Fin 22) \<and> float_mul (Fin 22) 1000 = Fin 22000 \<and>
   list_all (\<lambda>(b, lo, hi). (22000 :: rat) < lo \<or> hi < 22000) BAND_FREQ \<and>
   (\<exists>h. written (snd (convert example_args ([example_sel_offband] @ [example_rx]))) =
          [(Stdout, Header), (Stdout, Record h)] \<and> map_of h ''band'' = Some None) \<and>
   stream_text Stdout (snd (convert example_args [example_sel_offband, example_rx])) =
     ''wsjtx fox ADIF Export<eoh>'' @ [CHR 0x0A] @
     ''<call:6>JM1LSQ <mode:3>FT8 <rst_sent:3>-17 <rst_rcvd:3>+01 <qso_date:8>20191122 <time_on:6>052629 <qso_date_off:8>20191122 <time_off:6>052629  <freq:6>22.000 <station_callsign:6>N0CALL <eor>'' @ [CHR 0x0A]"
proof -
  let ?t = "snd (convert example_args [example_sel_offband])"
  let ?d = "\<lparr>year = 2019, month = 11, day = 22, hour = 5, minute = 26, second = 29\<rparr>"
  have t: "convert example_args [example_sel_offband] = (None, ?t)"
    using example_offband by (simp add: prod_eq_iff)
  have q: "ongoing ?t ''JM1LSQ'' = Some \<lparr>freq = ''22.000'', loc = ''none'', s_db_sent = ''-17''\<rparr>"
    using example_offband by simp
  have r: "startswith ''R+01'' CHR ''R''" "adif_db (tl ''R+01'') \<noteq> None"
    using example_reports by simp_all
  have s: "adif_db (s_db_sent \<lparr>freq = ''22.000'', loc = ''none'', s_db_sent = ''-17''\<rparr>) \<noteq> None"
    using example_reports by simp
  have z: "tz example_args ?d \<noteq> None" by (simp add: example_args_def utc_def)
  have f: "py_float (freq \<lparr>freq = ''22.000'', loc = ''none'', s_db_sent = ''-17''\<rparr>) = Some (Fin 22)"
    using example_offband by simp
  have b: "\<forall>khz. float_mul (Fin 22) 1000 = Fin khz \<longrightarrow>
      list_all (\<lambda>(b, lo, hi). khz < lo \<or> hi < khz) BAND_FREQ"
    using example_offband by simp
  have w: "written ?t = [(Stdout, Header)]" using example_offband by simp
  from none_field_omitted [OF t q example_rx_line r(1) r(2) s z f b, of "''band''"]
  obtain h where h: "convert example_args ([example_sel_offband] @ [example_rx]) =
      (None, ?t\<lparr>written := written ?t @ [(outf example_args, Record h)],
                ongoing := (ongoing ?t)(''JM1LSQ'' := None)\<rparr>)"
    "map_of h ''band'' = Some None"
    by blast
  have "outf example_args = Stdout" by (simp add: outf_def example_args_def)
  with h(1) w have "written (snd (convert example_args ([example_sel_offband] @ [example_rx]))) =
      [(Stdout, Header), (Stdout, Record h)]"
    by simp
  with h(2) have "\<exists>h. written (snd (convert example_args ([example_sel_offband] @ [example_rx]))) =
      [(Stdout, Header), (Stdout, Record h)] \<and> map_of h ''band'' = Some None"
    by blast
  then show ?thesis
    using t q example_rx_line example_reports example_offband by simp
qed

end
